theory Spec2Isabelle
  imports Main "HOL-Library.Word"
begin

unbundle bit_operations_syntax

section \<open>Bytes and UTF-8 (Go package unicode/utf8)\<close>

text \<open>
  A Go string is a sequence of bytes; it is modelled as a \<open>string\<close> (a list of 8-bit
  characters). A rune is a code point, modelled as a natural number.
\<close>

definition byte :: "char \<Rightarrow> nat" where
  "byte c = of_char c"

definition RuneError :: nat where
  "RuneError = 0xFFFD"

definition cont :: "nat \<Rightarrow> bool" where
  "cont b = (0x80 \<le> b \<and> b \<le> 0xBF)"

text \<open>
  \<open>utf8.DecodeRune\<close>: the first rune of the bytes and its width. Bytes that do not
  start a well-formed encoding give \<open>(RuneError, 1)\<close>, the empty input \<open>(RuneError, 0)\<close>.
\<close>

fun DecodeRune :: "nat list \<Rightarrow> nat \<times> nat" where
  "DecodeRune [] = (RuneError, 0)"
| "DecodeRune (b0 # bs) =
     (if b0 < 0x80 then (b0, 1)
      else if 0xC2 \<le> b0 \<and> b0 \<le> 0xDF then
        (case bs of
           b1 # _ \<Rightarrow> if cont b1 then ((b0 mod 32) * 64 + b1 mod 64, 2) else (RuneError, 1)
         | _ \<Rightarrow> (RuneError, 1))
      else if 0xE0 \<le> b0 \<and> b0 \<le> 0xEF then
        (case bs of
           b1 # b2 # _ \<Rightarrow>
             if (if b0 = 0xE0 then 0xA0 else 0x80) \<le> b1
                \<and> b1 \<le> (if b0 = 0xED then 0x9F else 0xBF) \<and> cont b2
             then ((b0 mod 16) * 4096 + (b1 mod 64) * 64 + b2 mod 64, 3)
             else (RuneError, 1)
         | _ \<Rightarrow> (RuneError, 1))
      else if 0xF0 \<le> b0 \<and> b0 \<le> 0xF4 then
        (case bs of
           b1 # b2 # b3 # _ \<Rightarrow>
             if (if b0 = 0xF0 then 0x90 else 0x80) \<le> b1
                \<and> b1 \<le> (if b0 = 0xF4 then 0x8F else 0xBF) \<and> cont b2 \<and> cont b3
             then ((b0 mod 8) * 262144 + (b1 mod 64) * 4096 + (b2 mod 64) * 64 + b3 mod 64, 4)
             else (RuneError, 1)
         | _ \<Rightarrow> (RuneError, 1))
      else (RuneError, 1))"

text \<open>
  \<open>utf8.AppendRune\<close>: the encoding of a rune; surrogates and values beyond
  \<open>0x10FFFF\<close> are written as \<open>RuneError\<close>.
\<close>

definition EncodeRune :: "nat \<Rightarrow> nat list" where
  "EncodeRune r =
     (if r \<le> 0x7F then [r]
      else if r \<le> 0x7FF then [0xC0 + r div 64, 0x80 + r mod 64]
      else if 0x10FFFF < r \<or> (0xD800 \<le> r \<and> r \<le> 0xDFFF) then [0xEF, 0xBF, 0xBD]
      else if r \<le> 0xFFFF then [0xE0 + r div 4096, 0x80 + (r div 64) mod 64, 0x80 + r mod 64]
      else [0xF0 + r div 262144, 0x80 + (r div 4096) mod 64, 0x80 + (r div 64) mod 64,
            0x80 + r mod 64])"

definition decodeRune :: "string \<Rightarrow> nat \<times> nat" where
  "decodeRune s = DecodeRune (map byte s)"

definition encodeRune :: "nat \<Rightarrow> string" where
  "encodeRune r = map char_of (EncodeRune r)"

section \<open>JSON syntax (Go package encoding/json, scanner)\<close>

text \<open>
  The program decodes and encodes with \<open>encoding/json\<close> of the Go release it is built
  with (\<open>golang:1.23\<close> in the Dockerfile). The library is modelled by what it
  computes: the scanner as a parser that reads one value from the head of the input,
  the decoder as a function from the value read to the struct, the encoder as a
  function from the struct to bytes.
\<close>

definition quote :: char where
  "quote = CHR 0x22"

definition backslash :: char where
  "backslash = CHR 0x5C"

definition isSpace :: "char \<Rightarrow> bool" where
  "isSpace c = (c = CHR '' '' \<or> c = CHR 0x09 \<or> c = CHR 0x0D \<or> c = CHR 0x0A)"

definition isDigit :: "char \<Rightarrow> bool" where
  "isDigit c = (0x30 \<le> byte c \<and> byte c \<le> 0x39)"

definition isHex :: "char \<Rightarrow> bool" where
  "isHex c = (isDigit c \<or> (0x61 \<le> byte c \<and> byte c \<le> 0x66) \<or> (0x41 \<le> byte c \<and> byte c \<le> 0x46))"

text \<open>
  A JSON value as the scanner delimits it. Strings and object keys keep their raw
  bytes (the text between the quotes, escapes not yet resolved); numbers keep their
  text.
\<close>

datatype json =
    JNull
  | JBool bool
  | JNumber string
  | JString string
  | JArray "json list"
  | JObject "(string \<times> json) list"

text \<open>
  The rest of a string literal after its opening quote: the raw contents and what
  follows the closing quote. Control characters and unknown escapes are syntax errors.
\<close>

fun scanString :: "string \<Rightarrow> (string \<times> string) option" where
  "scanString [] = None"
| "scanString (c # cs) =
     (if c = quote then Some ([], cs)
      else if c = backslash then
        (case cs of
           [] \<Rightarrow> None
         | e # cs1 \<Rightarrow>
             if e \<in> set ''bfnrt/'' \<or> e = backslash \<or> e = quote then
               map_option (\<lambda>(r, rest). (c # e # r, rest)) (scanString cs1)
             else if e = CHR ''u'' then
               (case cs1 of
                  h1 # h2 # h3 # h4 # cs2 \<Rightarrow>
                    if isHex h1 \<and> isHex h2 \<and> isHex h3 \<and> isHex h4 then
                      map_option (\<lambda>(r, rest). (c # e # h1 # h2 # h3 # h4 # r, rest))
                        (scanString cs2)
                    else None
                | _ \<Rightarrow> None)
             else None)
      else if byte c < 0x20 then None
      else map_option (\<lambda>(r, rest). (c # r, rest)) (scanString cs))"

text \<open>One or more digits, as the fraction and the exponent of a number need.\<close>

definition scanDigits1 :: "string \<Rightarrow> (string \<times> string) option" where
  "scanDigits1 s =
     (if takeWhile isDigit s = [] then None
      else Some (takeWhile isDigit s, dropWhile isDigit s))"

definition scanFrac :: "string \<Rightarrow> (string \<times> string) option" where
  "scanFrac s =
     (case s of
        c # cs \<Rightarrow>
          if c = CHR ''.'' then map_option (\<lambda>(d, rest). (c # d, rest)) (scanDigits1 cs)
          else Some ([], s)
      | [] \<Rightarrow> Some ([], s))"

definition scanExp :: "string \<Rightarrow> (string \<times> string) option" where
  "scanExp s =
     (case s of
        c # cs \<Rightarrow>
          if c = CHR ''e'' \<or> c = CHR ''E'' then
            (case cs of
               g # cs1 \<Rightarrow>
                 if g = CHR ''+'' \<or> g = CHR ''-'' then
                   map_option (\<lambda>(d, rest). (c # g # d, rest)) (scanDigits1 cs1)
                 else map_option (\<lambda>(d, rest). (c # d, rest)) (scanDigits1 cs)
             | [] \<Rightarrow> None)
          else Some ([], s)
      | [] \<Rightarrow> Some ([], s))"

definition scanInt :: "string \<Rightarrow> (string \<times> string) option" where
  "scanInt s =
     (case s of
        c # cs \<Rightarrow>
          if c = CHR ''0'' then Some ([c], cs)
          else if isDigit c then Some (c # takeWhile isDigit cs, dropWhile isDigit cs)
          else None
      | [] \<Rightarrow> None)"

definition scanNumber :: "string \<Rightarrow> (string \<times> string) option" where
  "scanNumber s =
     (let (sign, s1) = (case s of c # cs \<Rightarrow> if c = CHR ''-'' then ([c], cs) else ([], s)
                                 | [] \<Rightarrow> ([], s))
      in case scanInt s1 of
           None \<Rightarrow> None
         | Some (i, s2) \<Rightarrow>
             (case scanFrac s2 of
                None \<Rightarrow> None
              | Some (f, s3) \<Rightarrow>
                  (case scanExp s3 of
                     None \<Rightarrow> None
                   | Some (e, s4) \<Rightarrow> Some (sign @ i @ f @ e, s4))))"

text \<open>
  A scalar value (string, number or literal) at the head of the input, which starts
  with a non-space byte.
\<close>

definition scanScalar :: "string \<Rightarrow> (json \<times> string) option" where
  "scanScalar s =
     (case s of
        [] \<Rightarrow> None
      | c # cs \<Rightarrow>
          if c = quote then map_option (\<lambda>(r, rest). (JString r, rest)) (scanString cs)
          else if c = CHR ''-'' \<or> isDigit c then
            map_option (\<lambda>(n, rest). (JNumber n, rest)) (scanNumber s)
          else if take 4 s = ''true'' then Some (JBool True, drop 4 s)
          else if take 5 s = ''false'' then Some (JBool False, drop 5 s)
          else if take 4 s = ''null'' then Some (JNull, drop 4 s)
          else None)"

text \<open>
  The scanner keeps a stack of the arrays and objects that are open
  (\<open>parseState\<close>); here each entry also collects what has been read of it: the
  elements of an array, or the members of an object and the key whose value is being
  read (\<open>None\<close> while the key itself is read). The stack holds at most \<open>maxNestingDepth\<close> entries.
\<close>

datatype frame =
    FArray "json list"
  | FObject "(string \<times> json) list" "string option"

definition maxNestingDepth :: nat where
  "maxNestingDepth = 10000"

text \<open>What the scanner expects next.\<close>

datatype expect =
    BeginValue
  | BeginValueOrEmpty
  | BeginStringOrEmpty
  | BeginString
  | EndValue json


text \<open>
  One value from the head of the input, with the bytes that follow it. Every
  recursive call is on a shorter input; the two tests \<open>length rest < length cs\<close>
  guard the calls whose input is what a helper scanner left, and they always hold.
\<close>

function (sequential) parse :: "expect \<Rightarrow> frame list \<Rightarrow> string \<Rightarrow> (json \<times> string) option" where
  "parse (EndValue v) [] s = Some (v, s)"
| "parse e stack [] = None"
| "parse e stack (c # cs) =
     (if isSpace c then parse e stack cs
      else
        (case e of
           EndValue v \<Rightarrow>
             (case stack of
                [] \<Rightarrow> Some (v, c # cs)
              | FArray vs # stack1 \<Rightarrow>
                  if c = CHR '','' then parse BeginValue (FArray (vs @ [v]) # stack1) cs
                  else if c = CHR '']'' then parse (EndValue (JArray (vs @ [v]))) stack1 cs
                  else None
              | FObject ms k # stack1 \<Rightarrow>
                  if k = None then
                    (if c = CHR '':'' then
                       (case v of
                          JString key \<Rightarrow> parse BeginValue (FObject ms (Some key) # stack1) cs
                        | _ \<Rightarrow> None)
                     else None)
                  else if c = CHR '','' then
                    parse BeginString (FObject (ms @ [(the k, v)]) None # stack1) cs
                  else if c = CHR ''}'' then
                    parse (EndValue (JObject (ms @ [(the k, v)]))) stack1 cs
                  else None)
         | BeginString \<Rightarrow>
             (if c = quote then
                (case scanString cs of
                   None \<Rightarrow> None
                 | Some (k, rest) \<Rightarrow>
                     if length rest < length cs then parse (EndValue (JString k)) stack rest
                     else None)
              else None)
         | BeginStringOrEmpty \<Rightarrow>
             (if c = CHR ''}'' then
                (case stack of
                   FObject ms k # stack1 \<Rightarrow> parse (EndValue (JObject ms)) stack1 cs
                 | _ \<Rightarrow> None)
              else if c = quote then
                (case scanString cs of
                   None \<Rightarrow> None
                 | Some (k, rest) \<Rightarrow>
                     if length rest < length cs then parse (EndValue (JString k)) stack rest
                     else None)
              else None)
         | _ \<Rightarrow>
             (if c = CHR '']'' \<and> e = BeginValueOrEmpty then
                (case stack of
                   FArray vs # stack1 \<Rightarrow> parse (EndValue (JArray vs)) stack1 cs
                 | _ \<Rightarrow> None)
              else if c = CHR ''{'' then
                (if length stack < maxNestingDepth
                 then parse BeginStringOrEmpty (FObject [] None # stack) cs
                 else None)
              else if c = CHR ''['' then
                (if length stack < maxNestingDepth
                 then parse BeginValueOrEmpty (FArray [] # stack) cs
                 else None)
              else
                (case scanScalar (c # cs) of
                   None \<Rightarrow> None
                 | Some (v, rest) \<Rightarrow>
                     if length rest < length (c # cs) then parse (EndValue v) stack rest
                     else None))))"
  by pat_completeness auto
termination
  by (relation "measure (\<lambda>(e, stack, s). length s)") auto


text \<open>
  \<open>Decoder.Decode\<close> reads the next value of the stream and leaves what follows it
  unread; \<open>Unmarshal\<close> checks first (\<open>checkValid\<close>) that the whole input is one
  value, followed by white space only.
\<close>

definition readValue :: "string \<Rightarrow> json option" where
  "readValue s = map_option fst (parse BeginValue [] s)"

definition checkValid :: "string \<Rightarrow> json option" where
  "checkValid s =
     (case parse BeginValue [] s of
        None \<Rightarrow> None
      | Some (v, rest) \<Rightarrow> if dropWhile isSpace rest = [] then Some v else None)"

section \<open>JSON strings (encoding/json, unquote and appendString)\<close>

definition hexval :: "char \<Rightarrow> nat" where
  "hexval c =
     (if isDigit c then byte c - 0x30
      else if 0x61 \<le> byte c \<and> byte c \<le> 0x66 then byte c - 0x61 + 10
      else byte c - 0x41 + 10)"

text \<open>\<open>getu4\<close>: the code unit of a \<open>\uXXXX\<close> escape at the head of the input.\<close>

definition getu4 :: "string \<Rightarrow> nat option" where
  "getu4 s =
     (case s of
        b # u # h1 # h2 # h3 # h4 # _ \<Rightarrow>
          if b = backslash \<and> u = CHR ''u'' \<and> isHex h1 \<and> isHex h2 \<and> isHex h3 \<and> isHex h4
          then Some (((hexval h1 * 16 + hexval h2) * 16 + hexval h3) * 16 + hexval h4)
          else None
      | _ \<Rightarrow> None)"

text \<open>
  \<open>utf16.DecodeRune\<close> on a high and a low surrogate; \<open>None\<close> stands for the
  replacement character it returns for anything else.
\<close>

definition utf16_DecodeRune :: "nat \<Rightarrow> nat option \<Rightarrow> nat option" where
  "utf16_DecodeRune r1 r2 =
     (case r2 of
        None \<Rightarrow> None
      | Some r2' \<Rightarrow>
          if 0xD800 \<le> r1 \<and> r1 < 0xDC00 \<and> 0xDC00 \<le> r2' \<and> r2' < 0xE000
          then Some ((r1 - 0xD800) * 1024 + (r2' - 0xDC00) + 0x10000)
          else None)"

definition unescape :: "char \<Rightarrow> char option" where
  "unescape e =
     (if e = quote \<or> e = backslash \<or> e = CHR ''/'' then Some e
      else if e = CHR ''b'' then Some (CHR 0x08)
      else if e = CHR ''f'' then Some (CHR 0x0C)
      else if e = CHR ''n'' then Some (CHR 0x0A)
      else if e = CHR ''r'' then Some (CHR 0x0D)
      else if e = CHR ''t'' then Some (CHR 0x09)
      else None)"

text \<open>
  \<open>unquoteBytes\<close> on the raw contents of a string literal: escapes are resolved, a
  surrogate pair becomes one rune, and bytes that are not well-formed UTF-8 become
  the replacement character. Raw contents that the scanner would have refused (where
  \<open>unquoteBytes\<close> reports failure) end the result.
\<close>

function unquote :: "string \<Rightarrow> string" where
  "unquote [] = []"
| "unquote (c # cs) =
     (if c = backslash then
        (case cs of
           [] \<Rightarrow> []
         | e # cs1 \<Rightarrow>
             if e = CHR ''u'' then
               (case getu4 (c # cs) of
                  None \<Rightarrow> []
                | Some rr \<Rightarrow>
                    if 0xD800 \<le> rr \<and> rr < 0xE000 then
                      (case utf16_DecodeRune rr (getu4 (drop 4 cs1)) of
                         Some dec \<Rightarrow> encodeRune dec @ unquote (drop 10 cs1)
                       | None \<Rightarrow> encodeRune RuneError @ unquote (drop 4 cs1))
                    else encodeRune rr @ unquote (drop 4 cs1))
             else
               (case unescape e of
                  None \<Rightarrow> []
                | Some x \<Rightarrow> x # unquote cs1))
      else if c = quote \<or> byte c < 0x20 then []
      else if byte c < 0x80 then c # unquote cs
      else encodeRune (fst (decodeRune (c # cs)))
             @ unquote (drop (snd (decodeRune (c # cs)) - 1) cs))"
  by pat_completeness auto
termination
  by (relation "measure length") auto

definition hexdigit :: "nat \<Rightarrow> char" where
  "hexdigit n = ''0123456789abcdef'' ! (n mod 16)"

text \<open>\<open>htmlSafeSet\<close>: the ASCII bytes that \<open>appendString\<close> copies as they are.\<close>

definition htmlSafe :: "char \<Rightarrow> bool" where
  "htmlSafe c =
     (0x20 \<le> byte c \<and> byte c < 0x80 \<and> c \<noteq> quote \<and> c \<noteq> backslash
      \<and> c \<noteq> CHR ''<'' \<and> c \<noteq> CHR ''>'' \<and> c \<noteq> CHR ''&'')"

definition escapeASCII :: "char \<Rightarrow> string" where
  "escapeASCII c =
     (if c = backslash \<or> c = quote then [backslash, c]
      else if c = CHR 0x08 then [backslash, CHR ''b'']
      else if c = CHR 0x0C then [backslash, CHR ''f'']
      else if c = CHR 0x0A then [backslash, CHR ''n'']
      else if c = CHR 0x0D then [backslash, CHR ''r'']
      else if c = CHR 0x09 then [backslash, CHR ''t'']
      else [backslash, CHR ''u'', CHR ''0'', CHR ''0'',
            hexdigit (byte c div 16), hexdigit (byte c mod 16)])"

text \<open>
  The contents that \<open>appendString\<close> (with \<open>escapeHTML\<close> set, as \<open>Marshal\<close> and
  \<open>Encoder.Encode\<close> have it) writes between the quotes.
\<close>

function escapeString :: "string \<Rightarrow> string" where
  "escapeString [] = []"
| "escapeString (c # cs) =
     (if byte c < 0x80 then
        (if htmlSafe c then [c] else escapeASCII c) @ escapeString cs
      else if decodeRune (c # cs) = (RuneError, 1) then
        backslash # ''ufffd'' @ escapeString cs
      else if fst (decodeRune (c # cs)) = 0x2028 \<or> fst (decodeRune (c # cs)) = 0x2029 then
        backslash # ''u202'' @ [hexdigit (fst (decodeRune (c # cs)) mod 16)]
          @ escapeString (drop (snd (decodeRune (c # cs)) - 1) cs)
      else take (snd (decodeRune (c # cs))) (c # cs)
             @ escapeString (drop (snd (decodeRune (c # cs)) - 1) cs))"
  by pat_completeness auto
termination
  by (relation "measure length") auto

definition appendString :: "string \<Rightarrow> string" where
  "appendString s = quote # escapeString s @ [quote]"


section \<open>Library tables and time\<close>

text \<open>
  The program uses three things of the Go library that are tables or formats rather
  than code of the program; they are parameters of the model:
  \<^item> \<open>unicode_ToUpper\<close>, the upper-case mapping of a rune (\<open>unicode.ToUpper\<close>);
  \<^item> \<open>unicode_foldRune\<close>, the least rune of the case-folding orbit of a rune, which
    \<open>encoding/json\<close> uses to match object keys with field names;
  \<^item> the JSON form of a \<open>time.Time\<close>: \<open>time_Format\<close> gives the RFC 3339 text that
    \<open>Time.MarshalJSON\<close> writes between quotes (\<open>None\<close> when it reports an error),
    \<open>time_Parse\<close> reads such a text back (\<open>None\<close> when it is refused), and
    \<open>time_Zero\<close> is the zero \<open>Time\<close>.
\<close>

record 't stdlib =
  unicode_ToUpper :: "nat \<Rightarrow> nat"
  unicode_foldRune :: "nat \<Rightarrow> nat"
  time_Format :: "'t \<Rightarrow> string option"
  time_Parse :: "string \<Rightarrow> 't option"
  time_Zero :: 't

definition upperASCII :: "char \<Rightarrow> char" where
  "upperASCII c = (if 0x61 \<le> byte c \<and> byte c \<le> 0x7A then char_of (byte c - 0x20) else c)"

text \<open>\<open>strings.Map\<close> with a mapping that never drops a rune.\<close>

function strings_Map :: "(nat \<Rightarrow> nat) \<Rightarrow> string \<Rightarrow> string" where
  "strings_Map f [] = []"
| "strings_Map f (c # cs) =
     encodeRune (f (fst (decodeRune (c # cs))))
       @ strings_Map f (drop (snd (decodeRune (c # cs)) - 1) cs)"
  by pat_completeness auto
termination
  by (relation "measure (\<lambda>(f, s). length s)") auto

text \<open>
  \<open>strings.ToUpper\<close>: a string of ASCII bytes only has its letters \<open>a\<close> to \<open>z\<close>
  replaced; any other string is mapped rune by rune.
\<close>

definition strings_ToUpper :: "'t stdlib \<Rightarrow> string \<Rightarrow> string" where
  "strings_ToUpper L s =
     (if list_all (\<lambda>c. byte c < 0x80) s then map upperASCII s
      else strings_Map (unicode_ToUpper L) s)"

text \<open>\<open>foldName\<close>: the key under which \<open>encoding/json\<close> looks a field up.\<close>

function foldName :: "'t stdlib \<Rightarrow> string \<Rightarrow> string" where
  "foldName L [] = []"
| "foldName L (c # cs) =
     (if byte c < 0x80 then upperASCII c # foldName L cs
      else encodeRune (unicode_foldRune L (fst (decodeRune (c # cs))))
             @ foldName L (drop (snd (decodeRune (c # cs)) - 1) cs))"
  by pat_completeness auto
termination
  by (relation "measure (\<lambda>(L, s). length s)") auto

text \<open>
  The field that an object key names: the field of exactly that name, or else the
  first field whose folded name is the folded key.
\<close>

definition lookupField :: "'t stdlib \<Rightarrow> string list \<Rightarrow> string \<Rightarrow> string option" where
  "lookupField L names key =
     (if key \<in> set names then Some key
      else find (\<lambda>n. foldName L n = foldName L key) names)"

section \<open>The data model (app/main.go)\<close>

record JobRequest =
  req_Text :: string

record JobMessage =
  msg_ID :: string
  msg_Text :: string

record 't JobResult =
  res_ID :: string
  res_Text :: string
  res_Output :: string
  res_ProcessedAt :: 't

section \<open>Decoding into the structs (encoding/json, decode)\<close>

text \<open>
  A value stored into a field of type \<open>string\<close>: a JSON string sets it, \<open>null\<close>
  leaves it as it is, and any other value is an \<open>UnmarshalTypeError\<close>, which is kept
  while decoding goes on. The result is the field and whether the value was accepted.
\<close>

fun storeString :: "json \<Rightarrow> string \<Rightarrow> string \<times> bool" where
  "storeString (JString raw) old = (unquote raw, True)"
| "storeString JNull old = (old, True)"
| "storeString _ old = (old, False)"

text \<open>
  A value stored into a field of type \<open>time.Time\<close> goes through
  \<open>Time.UnmarshalJSON\<close>: \<open>null\<close> leaves the field as it is, a string is parsed from
  its raw contents, anything else is an error.
\<close>

fun storeTime :: "'t stdlib \<Rightarrow> json \<Rightarrow> 't \<Rightarrow> 't \<times> bool" where
  "storeTime L (JString raw) old =
     (case time_Parse L raw of None \<Rightarrow> (old, False) | Some t \<Rightarrow> (t, True))"
| "storeTime L JNull old = (old, True)"
| "storeTime L _ old = (old, False)"

text \<open>
  The members of an object are stored in the order of the input, so a repeated key
  overwrites; a key that names no field is skipped. The flag records whether every
  value was accepted; the decoding fails at the end when it is false.
\<close>

fun object_JobRequest :: "'t stdlib \<Rightarrow> (string \<times> json) list \<Rightarrow> JobRequest \<times> bool \<Rightarrow> JobRequest \<times> bool" where
  "object_JobRequest L [] acc = acc"
| "object_JobRequest L ((k, v) # ms) (r, ok) =
     (if lookupField L [''text''] (unquote k) = Some ''text'' then
        (let (x, ok1) = storeString v (req_Text r)
         in object_JobRequest L ms (r\<lparr>req_Text := x\<rparr>, ok \<and> ok1))
      else object_JobRequest L ms (r, ok))"

fun object_JobMessage :: "'t stdlib \<Rightarrow> (string \<times> json) list \<Rightarrow> JobMessage \<times> bool \<Rightarrow> JobMessage \<times> bool" where
  "object_JobMessage L [] acc = acc"
| "object_JobMessage L ((k, v) # ms) (r, ok) =
     (let f = lookupField L [''id'', ''text''] (unquote k) in
      if f = Some ''id'' then
        (let (x, ok1) = storeString v (msg_ID r)
         in object_JobMessage L ms (r\<lparr>msg_ID := x\<rparr>, ok \<and> ok1))
      else if f = Some ''text'' then
        (let (x, ok1) = storeString v (msg_Text r)
         in object_JobMessage L ms (r\<lparr>msg_Text := x\<rparr>, ok \<and> ok1))
      else object_JobMessage L ms (r, ok))"

fun object_JobResult :: "'t stdlib \<Rightarrow> (string \<times> json) list \<Rightarrow> 't JobResult \<times> bool \<Rightarrow> 't JobResult \<times> bool" where
  "object_JobResult L [] acc = acc"
| "object_JobResult L ((k, v) # ms) (r, ok) =
     (let f = lookupField L [''id'', ''text'', ''output'', ''processed_at''] (unquote k) in
      if f = Some ''id'' then
        (let (x, ok1) = storeString v (res_ID r)
         in object_JobResult L ms (r\<lparr>res_ID := x\<rparr>, ok \<and> ok1))
      else if f = Some ''text'' then
        (let (x, ok1) = storeString v (res_Text r)
         in object_JobResult L ms (r\<lparr>res_Text := x\<rparr>, ok \<and> ok1))
      else if f = Some ''output'' then
        (let (x, ok1) = storeString v (res_Output r)
         in object_JobResult L ms (r\<lparr>res_Output := x\<rparr>, ok \<and> ok1))
      else if f = Some ''processed_at'' then
        (let (x, ok1) = storeTime L v (res_ProcessedAt r)
         in object_JobResult L ms (r\<lparr>res_ProcessedAt := x\<rparr>, ok \<and> ok1))
      else object_JobResult L ms (r, ok))"

text \<open>
  A value decoded into a struct that starts as the zero value: an object stores its
  members, \<open>null\<close> changes nothing, and any other value is an \<open>UnmarshalTypeError\<close>.
\<close>

definition finish :: "'a \<times> bool \<Rightarrow> 'a option" where
  "finish p = (if snd p then Some (fst p) else None)"

fun value_JobRequest :: "'t stdlib \<Rightarrow> json \<Rightarrow> JobRequest option" where
  "value_JobRequest L (JObject ms) = finish (object_JobRequest L ms (\<lparr>req_Text = []\<rparr>, True))"
| "value_JobRequest L JNull = Some \<lparr>req_Text = []\<rparr>"
| "value_JobRequest L _ = None"

fun value_JobMessage :: "'t stdlib \<Rightarrow> json \<Rightarrow> JobMessage option" where
  "value_JobMessage L (JObject ms) =
     finish (object_JobMessage L ms (\<lparr>msg_ID = [], msg_Text = []\<rparr>, True))"
| "value_JobMessage L JNull = Some \<lparr>msg_ID = [], msg_Text = []\<rparr>"
| "value_JobMessage L _ = None"

definition zero_JobResult :: "'t stdlib \<Rightarrow> 't JobResult" where
  "zero_JobResult L =
     \<lparr>res_ID = [], res_Text = [], res_Output = [], res_ProcessedAt = time_Zero L\<rparr>"

fun value_JobResult :: "'t stdlib \<Rightarrow> json \<Rightarrow> 't JobResult option" where
  "value_JobResult L (JObject ms) = finish (object_JobResult L ms (zero_JobResult L, True))"
| "value_JobResult L JNull = Some (zero_JobResult L)"
| "value_JobResult L _ = None"

text \<open>
  The three decoding calls of the program: \<open>json.NewDecoder(r.Body).Decode(&req)\<close> in
  \<open>createJob\<close>, \<open>json.Unmarshal([]byte( *message.Body), &jobMsg)\<close> in \<open>processMessage\<close>
  and \<open>json.NewDecoder(result.Body).Decode(&jobResult)\<close> in \<open>getJob\<close>. \<open>None\<close> is a
  returned error.
\<close>

definition Decode_JobRequest :: "'t stdlib \<Rightarrow> string \<Rightarrow> JobRequest option" where
  "Decode_JobRequest L body = Option.bind (readValue body) (value_JobRequest L)"

definition Unmarshal_JobMessage :: "'t stdlib \<Rightarrow> string \<Rightarrow> JobMessage option" where
  "Unmarshal_JobMessage L body = Option.bind (checkValid body) (value_JobMessage L)"

definition Decode_JobResult :: "'t stdlib \<Rightarrow> string \<Rightarrow> 't JobResult option" where
  "Decode_JobResult L body = Option.bind (readValue body) (value_JobResult L)"

section \<open>Encoding the structs (encoding/json, encode)\<close>

definition member :: "string \<Rightarrow> string \<Rightarrow> string" where
  "member name v = quote # name @ [quote, CHR '':''] @ v"

definition Marshal_JobMessage :: "JobMessage \<Rightarrow> string option" where
  "Marshal_JobMessage m =
     Some (CHR ''{'' # member ''id'' (appendString (msg_ID m)) @ CHR '','' #
           member ''text'' (appendString (msg_Text m)) @ [CHR ''}''])"

definition Marshal_JobResult :: "'t stdlib \<Rightarrow> 't JobResult \<Rightarrow> string option" where
  "Marshal_JobResult L r =
     (case time_Format L (res_ProcessedAt r) of
        None \<Rightarrow> None
      | Some ts \<Rightarrow>
          Some (CHR ''{'' # member ''id'' (appendString (res_ID r)) @ CHR '','' #
                member ''text'' (appendString (res_Text r)) @ CHR '','' #
                member ''output'' (appendString (res_Output r)) @ CHR '','' #
                member ''processed_at'' (quote # ts @ [quote]) @ [CHR ''}'']))"

text \<open>\<open>Marshal\<close> of the map \<open>{"id": jobID}\<close> that \<open>createJob\<close> answers with.\<close>

definition Marshal_id :: "string \<Rightarrow> string option" where
  "Marshal_id jobID = Some (CHR ''{'' # member ''id'' (appendString jobID) @ [CHR ''}''])"

text \<open>\<open>Encoder.Encode\<close> writes the encoding and a newline, or nothing on an error.\<close>

definition Encode :: "string option \<Rightarrow> string" where
  "Encode m = (case m of None \<Rightarrow> [] | Some b \<Rightarrow> b @ [CHR 0x0A])"


section \<open>Job identifiers (github.com/google/uuid)\<close>

text \<open>
  \<open>uuid.New()\<close> reads 16 random bytes, sets the version and variant bits, and panics
  when the bytes cannot be read (here: fewer than 16 are given). \<open>String\<close> writes the
  bytes in hexadecimal, in groups of 4, 2, 2, 2 and 6 bytes.
\<close>

definition uuid_New :: "8 word list \<Rightarrow> 8 word list option" where
  "uuid_New rnd =
     (if length rnd < 16 then None
      else Some ((take 16 rnd)[6 := (rnd ! 6 AND 0x0f) OR 0x40, 8 := (rnd ! 8 AND 0x3f) OR 0x80]))"

definition hex_Encode :: "8 word list \<Rightarrow> string" where
  "hex_Encode bs = concat (map (\<lambda>b. [hexdigit (unat b div 16), hexdigit (unat b mod 16)]) bs)"

definition uuid_String :: "8 word list \<Rightarrow> string" where
  "uuid_String u =
     hex_Encode (take 4 u) @ CHR ''-'' # hex_Encode (take 2 (drop 4 u)) @ CHR ''-'' #
     hex_Encode (take 2 (drop 6 u)) @ CHR ''-'' # hex_Encode (take 2 (drop 8 u)) @ CHR ''-'' #
     hex_Encode (drop 10 u)"

section \<open>The external services and the state of the system\<close>

text \<open>
  The queue and the object store are services outside the program. The model keeps
  the objects of the store (by bucket and key), the list of the service calls the
  program has made, each with whether it succeeded, and the lines the program has
  logged. Whether a call fails is an input of the operation that makes it; a call that
  fails changes nothing in the store, and an object that was put is there for the
  next \<open>GetObject\<close>. The field \<open>processed\<close> is a history variable,
  not a variable of the program: the worker loop adds a message to it at the point
  where \<open>processMessage\<close> has returned \<open>nil\<close> for that message.
\<close>

record Message =
  Message_Body :: "string option"
  ReceiptHandle :: "string option"

record s3object =
  obj_Body :: string
  obj_ContentType :: string

datatype call =
    SendMessage string string bool
  | ReceiveMessage string nat nat bool
  | DeleteMessage string "string option" bool
  | PutObject string string string string bool
  | GetObject string string bool
  | Sleep nat

datatype error =
    ServiceError
  | JSONError
  | Errorf string error

record world =
  objects :: "string \<times> string \<Rightarrow> s3object option"
  calls :: "call list"
  logs :: "(string \<times> error) list"
  processed :: "Message list"

datatype sqs_Client = SqsClient string

datatype s3_Client = S3Client string

record App =
  sqsClient :: "sqs_Client option"
  s3Client :: "s3_Client option"
  sqsURL :: string
  s3Bucket :: string

text \<open>
  A call returns, or panics: a method called on a \<open>nil\<close> client, a \<open>nil\<close> pointer
  dereferenced, a slice taken out of range. The state at the panic is kept.
\<close>

datatype 'a outcome = Panic world | Return 'a

definition called :: "call \<Rightarrow> world \<Rightarrow> world" where
  "called c w = w\<lparr>calls := calls w @ [c]\<rparr>"

definition logged :: "string \<Rightarrow> error \<Rightarrow> world \<Rightarrow> world" where
  "logged f e w = w\<lparr>logs := logs w @ [(f, e)]\<rparr>"

definition sqs_SendMessage ::
    "sqs_Client option \<Rightarrow> string \<Rightarrow> string \<Rightarrow> bool \<Rightarrow> world \<Rightarrow> (error option \<times> world) outcome" where
  "sqs_SendMessage c url body fails w =
     (case c of
        None \<Rightarrow> Panic w
      | Some _ \<Rightarrow>
          Return (if fails then Some ServiceError else None,
                  called (SendMessage url body (\<not> fails)) w))"

definition sqs_DeleteMessage ::
    "sqs_Client option \<Rightarrow> string \<Rightarrow> string option \<Rightarrow> bool \<Rightarrow> world \<Rightarrow> (error option \<times> world) outcome" where
  "sqs_DeleteMessage c url handle fails w =
     (case c of
        None \<Rightarrow> Panic w
      | Some _ \<Rightarrow>
          Return (if fails then Some ServiceError else None,
                  called (DeleteMessage url handle (\<not> fails)) w))"

text \<open>
  What \<open>ReceiveMessage\<close> answers is chosen by the service: an error, or some
  messages. With each message come the inputs of its processing: the time
  \<open>time.Now()\<close> returns, and whether the store and the queue fail on it.
\<close>

record 't handling =
  now :: 't
  putFails :: bool
  deleteFails :: bool



definition s3_PutObject ::
    "s3_Client option \<Rightarrow> string \<Rightarrow> string \<Rightarrow> string \<Rightarrow> string \<Rightarrow> bool \<Rightarrow> world
     \<Rightarrow> (error option \<times> world) outcome" where
  "s3_PutObject c bucket key content ctype fails w =
     (case c of
        None \<Rightarrow> Panic w
      | Some _ \<Rightarrow>
          if fails then Return (Some ServiceError, called (PutObject bucket key content ctype False) w)
          else Return (None,
                 called (PutObject bucket key content ctype True)
                   (w\<lparr>objects := (objects w)((bucket, key) :=
                         Some \<lparr>obj_Body = content, obj_ContentType = ctype\<rparr>)\<rparr>)))"

text \<open>\<open>GetObject\<close> fails when the service fails or when there is no object under the key.\<close>

definition s3_GetObject ::
    "s3_Client option \<Rightarrow> string \<Rightarrow> string \<Rightarrow> bool \<Rightarrow> world \<Rightarrow> ((error + s3object) \<times> world) outcome" where
  "s3_GetObject c bucket key fails w =
     (case c of
        None \<Rightarrow> Panic w
      | Some _ \<Rightarrow>
          (case (if fails then None else objects w (bucket, key)) of
             None \<Rightarrow> Return (Inl ServiceError, called (GetObject bucket key False) w)
           | Some obj \<Rightarrow> Return (Inr obj, called (GetObject bucket key True) w)))"

section \<open>HTTP (net/http)\<close>

text \<open>
  A handler is modelled as it is called by the server: with the method, the path
  (\<open>r.URL.Path\<close>) and the body of the request. The routing that comes before the
  call (the patterns that \<open>main\<close> registers) is not modelled. The answer is the
  status, the headers the handler sets and the body written.
\<close>

record Request =
  Method :: string
  Path :: string
  Body :: string

record Response =
  status :: nat
  header :: "(string \<times> string) list"
  body :: string

text \<open>\<open>http.Error\<close>: a plain-text answer, the message followed by a newline.\<close>

definition http_Error :: "string \<Rightarrow> nat \<Rightarrow> Response" where
  "http_Error msg code =
     \<lparr>status = code,
      header = [(''Content-Type'', ''text/plain; charset=utf-8''),
                (''X-Content-Type-Options'', ''nosniff'')],
      body = msg @ [CHR 0x0A]\<rparr>"

definition StatusOK :: nat where "StatusOK = 200"
definition StatusCreated :: nat where "StatusCreated = 201"
definition StatusBadRequest :: nat where "StatusBadRequest = 400"
definition StatusNotFound :: nat where "StatusNotFound = 404"
definition StatusMethodNotAllowed :: nat where "StatusMethodNotAllowed = 405"
definition StatusInternalServerError :: nat where "StatusInternalServerError = 500"
definition StatusServiceUnavailable :: nat where "StatusServiceUnavailable = 503"

section \<open>The program (app/main.go)\<close>

text \<open>
  \<open>main\<close> up to the point where the server listens: the environment is read, the
  configuration is loaded (which may fail), and the \<open>App\<close> is built with both
  clients. The result is a fatal exit, or the \<open>App\<close> that serves and whether the
  worker loop was started.
\<close>

datatype startup = Fatal string | Serving App bool

definition main :: "(string \<Rightarrow> string) \<Rightarrow> bool \<Rightarrow> startup" where
  "main getenv configFails =
     (let region = (if getenv ''AWS_REGION'' = [] then ''us-east-1'' else getenv ''AWS_REGION'') in
      if configFails then Fatal ''failed to load AWS config: %v''
      else
        let sqsURL1 = getenv ''SQS_QUEUE_URL'' in
        if sqsURL1 = [] then Fatal ''SQS_QUEUE_URL environment variable is required''
        else
          let s3Bucket1 = getenv ''S3_BUCKET'' in
          if s3Bucket1 = [] then Fatal ''S3_BUCKET environment variable is required''
          else
            Serving
              \<lparr>sqsClient = Some (SqsClient region), s3Client = Some (S3Client region),
               sqsURL = sqsURL1, s3Bucket = s3Bucket1\<rparr>
              (getenv ''WORKER_ENABLED'' = ''true''))"

definition healthz :: "App \<Rightarrow> Request \<Rightarrow> Response" where
  "healthz a r =
     (if Method r \<noteq> ''GET'' then http_Error ''method not allowed'' StatusMethodNotAllowed
      else \<lparr>status = StatusOK, header = [], body = ''ok''\<rparr>)"

definition readyz :: "App \<Rightarrow> Request \<Rightarrow> Response" where
  "readyz a r =
     (if Method r \<noteq> ''GET'' then http_Error ''method not allowed'' StatusMethodNotAllowed
      else if sqsClient a = None \<or> s3Client a = None then
        http_Error ''not ready'' StatusServiceUnavailable
      else \<lparr>status = StatusOK, header = [], body = ''ready''\<rparr>)"

text \<open>
  \<open>createJob\<close>. Its inputs beside the request are the random bytes that \<open>uuid.New()\<close>
  reads and whether \<open>SendMessage\<close> fails.
\<close>

definition createJob ::
    "'t stdlib \<Rightarrow> App \<Rightarrow> world \<Rightarrow> Request \<Rightarrow> 8 word list \<Rightarrow> bool \<Rightarrow> (Response \<times> world) outcome" where
  "createJob L a w r rnd sendFails =
     (if Method r \<noteq> ''POST'' then
        Return (http_Error ''method not allowed'' StatusMethodNotAllowed, w)
      else
        case Decode_JobRequest L (Body r) of
          None \<Rightarrow> Return (http_Error ''invalid JSON'' StatusBadRequest, w)
        | Some req \<Rightarrow>
            (case uuid_New rnd of
               None \<Rightarrow> Panic w
             | Some u \<Rightarrow>
                 let jobID = uuid_String u;
                     message = \<lparr>msg_ID = jobID, msg_Text = req_Text req\<rparr>
                 in case Marshal_JobMessage message of
                      None \<Rightarrow>
                        Return (http_Error ''failed to encode message'' StatusInternalServerError, w)
                    | Some messageBody \<Rightarrow>
                        (case sqs_SendMessage (sqsClient a) (sqsURL a) messageBody sendFails w of
                           Panic w1 \<Rightarrow> Panic w1
                         | Return (Some err, w1) \<Rightarrow>
                             Return (http_Error ''failed to send message'' StatusInternalServerError,
                                     logged ''failed to send message: %v'' err w1)
                         | Return (None, w1) \<Rightarrow>
                             Return (\<lparr>status = StatusCreated,
                                      header = [(''Content-Type'', ''application/json'')],
                                      body = Encode (Marshal_id jobID)\<rparr>, w1))))"

definition jobKey :: "string \<Rightarrow> string" where
  "jobKey jobID = ''jobs/'' @ jobID @ ''.json''"

text \<open>
  \<open>getJob\<close>. The identifier is the path after its first six bytes (\<open>/jobs/\<close>);
  taking it from a shorter path panics. The answer that writes no status has status
  200.
\<close>

definition getJob ::
    "'t stdlib \<Rightarrow> App \<Rightarrow> world \<Rightarrow> Request \<Rightarrow> bool \<Rightarrow> (Response \<times> world) outcome" where
  "getJob L a w r getFails =
     (if Method r \<noteq> ''GET'' then
        Return (http_Error ''method not allowed'' StatusMethodNotAllowed, w)
      else if length (Path r) < length ''/jobs/'' then Panic w
      else
        let jobID = drop (length ''/jobs/'') (Path r) in
        if jobID = [] then Return (http_Error ''job id required'' StatusBadRequest, w)
        else
          let key = jobKey jobID in
          case s3_GetObject (s3Client a) (s3Bucket a) key getFails w of
            Panic w1 \<Rightarrow> Panic w1
          | Return (Inl err, w1) \<Rightarrow> Return (http_Error ''job not found'' StatusNotFound, w1)
          | Return (Inr result, w1) \<Rightarrow>
              (case Decode_JobResult L (obj_Body result) of
                 None \<Rightarrow>
                   Return (http_Error ''failed to decode job'' StatusInternalServerError, w1)
               | Some jobResult \<Rightarrow>
                   Return (\<lparr>status = StatusOK,
                            header = [(''Content-Type'', ''application/json'')],
                            body = Encode (Marshal_JobResult L jobResult)\<rparr>, w1)))"

text \<open>
  \<open>processMessage\<close>. Its inputs beside the message are the time \<open>time.Now()\<close>
  returns and whether \<open>PutObject\<close> fails. The result is the error returned, \<open>None\<close>
  for \<open>nil\<close>.
\<close>

definition processMessage ::
    "'t stdlib \<Rightarrow> App \<Rightarrow> world \<Rightarrow> Message \<Rightarrow> 't \<Rightarrow> bool \<Rightarrow> (error option \<times> world) outcome" where
  "processMessage L a w message tnow putFails1 =
     (case Message_Body message of
        None \<Rightarrow> Panic w
      | Some mbody \<Rightarrow>
          (case Unmarshal_JobMessage L mbody of
             None \<Rightarrow> Return (Some (Errorf ''failed to unmarshal message: %w'' JSONError), w)
           | Some jobMsg \<Rightarrow>
               let output = strings_ToUpper L (msg_Text jobMsg);
                   jobResult = \<lparr>res_ID = msg_ID jobMsg, res_Text = msg_Text jobMsg,
                                res_Output = output, res_ProcessedAt = tnow\<rparr>
               in case Marshal_JobResult L jobResult of
                    None \<Rightarrow> Return (Some (Errorf ''failed to marshal result: %w'' JSONError), w)
                  | Some resultBody \<Rightarrow>
                      let key = jobKey (msg_ID jobMsg) in
                      (case s3_PutObject (s3Client a) (s3Bucket a) key resultBody
                              ''application/json'' putFails1 w of
                         Panic w1 \<Rightarrow> Panic w1
                       | Return (Some err, w1) \<Rightarrow>
                           Return (Some (Errorf ''failed to put object: %w'' err), w1)
                       | Return (None, w1) \<Rightarrow> Return (None, w1))))"

text \<open>
  The body of the inner \<open>for\<close> of \<open>workerLoop\<close>, for one message: the message is
  processed and, when that returned \<open>nil\<close>, deleted from the queue.
\<close>

definition handleMessage ::
    "'t stdlib \<Rightarrow> App \<Rightarrow> world \<Rightarrow> Message \<times> 't handling \<Rightarrow> world outcome" where
  "handleMessage L a w mh =
     (case processMessage L a w (fst mh) (now (snd mh)) (putFails (snd mh)) of
        Panic w1 \<Rightarrow> Panic w1
      | Return (Some err, w1) \<Rightarrow> Return (logged ''failed to process message: %v'' err w1)
      | Return (None, w1) \<Rightarrow>
          (case sqs_DeleteMessage (sqsClient a) (sqsURL a) (ReceiptHandle (fst mh))
                  (deleteFails (snd mh)) (w1\<lparr>processed := processed w1 @ [fst mh]\<rparr>) of
             Panic w2 \<Rightarrow> Panic w2
           | Return (Some err, w2) \<Rightarrow> Return (logged ''failed to delete message: %v'' err w2)
           | Return (None, w2) \<Rightarrow> Return w2))"

text \<open>The inner \<open>for\<close> of \<open>workerLoop\<close>, over the messages of one answer.\<close>

fun processMessages ::
    "'t stdlib \<Rightarrow> App \<Rightarrow> world \<Rightarrow> (Message \<times> 't handling) list \<Rightarrow> world outcome" where
  "processMessages L a w [] = Return w"
| "processMessages L a w (mh # rest) =
     (case handleMessage L a w mh of
        Panic w1 \<Rightarrow> Panic w1
      | Return w1 \<Rightarrow> processMessages L a w1 rest)"


section \<open>The running system\<close>


definition world_of :: "world outcome \<Rightarrow> world" where
  "world_of out = (case out of Panic w \<Rightarrow> w | Return w \<Rightarrow> w)"

definition served :: "(Response \<times> world) outcome \<Rightarrow> world" where
  "served out = (case out of Panic w \<Rightarrow> w | Return (resp, w) \<Rightarrow> w)"



definition initial :: world where
  "initial = \<lparr>objects = (\<lambda>k. None), calls = [], logs = [], processed = []\<rparr>"

text \<open>
  A message carries the identifier \<open>X\<close> when its body decodes to a \<open>JobMessage\<close>
  with that identifier.
\<close>

definition carries :: "'t stdlib \<Rightarrow> Message \<Rightarrow> string \<Rightarrow> bool" where
  "carries L m X =
     (case Message_Body m of
        None \<Rightarrow> False
      | Some mbody \<Rightarrow>
          (case Unmarshal_JobMessage L mbody of
             None \<Rightarrow> False
           | Some jobMsg \<Rightarrow> msg_ID jobMsg = X))"


section \<open>Notions used in the statements\<close>

text \<open>The calls of a trace that acknowledge a message.\<close>

fun isDelete :: "call \<Rightarrow> bool" where
  "isDelete (DeleteMessage u h ok) = True"
| "isDelete _ = False"

text \<open>
  The lifecycle invariant: the objects of the store are exactly the objects under
  \<open>jobs/X.json\<close>, in the bucket of the \<open>App\<close>, for the identifiers \<open>X\<close> carried
  by the messages that have been processed.
\<close>

definition stored_iff_processed :: "'t stdlib \<Rightarrow> App \<Rightarrow> world \<Rightarrow> bool" where
  "stored_iff_processed L a w =
     (\<forall>b k. (objects w (b, k) \<noteq> None) =
        (b = s3Bucket a \<and> (\<exists>m \<in> set (processed w). \<exists>X. carries L m X \<and> k = jobKey X)))"

text \<open>
  A byte that may stand as it is inside a JSON string literal, and a rune as
  \<open>utf8.AppendRune\<close> writes it (an invalid one replaced by \<open>RuneError\<close>).
\<close>

definition plain :: "char \<Rightarrow> bool" where
  "plain c = (c \<noteq> quote \<and> c \<noteq> backslash \<and> 0x20 \<le> byte c)"

definition validRune :: "nat \<Rightarrow> nat" where
  "validRune r = (if 0x10FFFF < r \<or> (0xD800 \<le> r \<and> r \<le> 0xDFFF) then RuneError else r)"

text \<open>\<open>utf8.ValidString\<close>: the bytes are well-formed UTF-8.\<close>

function valid_utf8 :: "string \<Rightarrow> bool" where
  "valid_utf8 [] = True"
| "valid_utf8 (c # cs) =
     (if byte c < 0x80 then valid_utf8 cs
      else decodeRune (c # cs) \<noteq> (RuneError, 1)
           \<and> valid_utf8 (drop (snd (decodeRune (c # cs)) - 1) cs))"
  by pat_completeness auto
termination
  by (relation "measure length") auto

text \<open>
  The runes of a string, in order, as a \<open>range\<close> loop over it gives them: a byte
  that starts no well-formed encoding counts as \<open>RuneError\<close>.
\<close>

function runes :: "string \<Rightarrow> nat list" where
  "runes [] = []"
| "runes (c # cs) =
     fst (decodeRune (c # cs)) # runes (drop (snd (decodeRune (c # cs)) - 1) cs)"
  by pat_completeness auto
termination
  by (relation "measure length") auto

text \<open>
  The contract of the time format: the text that \<open>time_Format\<close> gives for \<open>t\<close>
  needs no escaping in a JSON string and \<open>time_Parse\<close> reads it back as \<open>t'\<close>
  (the same instant; its representation may differ).
\<close>

definition time_roundtrip :: "'t stdlib \<Rightarrow> 't \<Rightarrow> 't \<Rightarrow> bool" where
  "time_roundtrip L t t' =
     (case time_Format L t of
        None \<Rightarrow> False
      | Some ts \<Rightarrow> list_all plain ts \<and> time_Parse L ts = Some t')"

text \<open>
  The \<open>JobResult\<close> that \<open>processMessage\<close> builds from a decoded message at a given
  time, and the state after a successful \<open>PutObject\<close>.
\<close>

definition result_of :: "'t stdlib \<Rightarrow> JobMessage \<Rightarrow> 't \<Rightarrow> 't JobResult" where
  "result_of L jobMsg t =
     \<lparr>res_ID = msg_ID jobMsg, res_Text = msg_Text jobMsg,
      res_Output = strings_ToUpper L (msg_Text jobMsg), res_ProcessedAt = t\<rparr>"

definition stored :: "world \<Rightarrow> string \<Rightarrow> string \<Rightarrow> string \<Rightarrow> world" where
  "stored w bucket key content =
     called (PutObject bucket key content ''application/json'' True)
       (w\<lparr>objects := (objects w)((bucket, key) :=
            Some \<lparr>obj_Body = content, obj_ContentType = ''application/json''\<rparr>)\<rparr>)"

section \<open>Sample inputs\<close>

text \<open>
  Concrete inputs on which the theorems below are instantiated. In the sample
  library a time is its own RFC 3339 text, the upper-case table covers the ASCII
  letters, and the only runes that fold to another rune are the long s and the
  Kelvin sign.
\<close>

definition sample_lib :: "string stdlib" where
  "sample_lib =
     \<lparr>unicode_ToUpper = (\<lambda>r. if 0x61 \<le> r \<and> r \<le> 0x7A then r - 0x20 else r),
      unicode_foldRune = (\<lambda>r. if r = 0x17F then 0x53 else if r = 0x212A then 0x4B else r),
      time_Format = Some,
      time_Parse = (\<lambda>s. if s \<noteq> [] \<and> list_all (\<lambda>c. c \<in> set ''0123456789-:.+TZ'') s
                         then Some s else None),
      time_Zero = ''0001-01-01T00:00:00Z''\<rparr>"

definition sample_getenv :: "string \<Rightarrow> string" where
  "sample_getenv k =
     (if k = ''SQS_QUEUE_URL'' then ''q''
      else if k = ''S3_BUCKET'' then ''b''
      else if k = ''WORKER_ENABLED'' then ''true''
      else [])"

definition sample_app :: App where
  "sample_app =
     \<lparr>sqsClient = Some (SqsClient ''us-east-1''), s3Client = Some (S3Client ''us-east-1''),
      sqsURL = ''q'', s3Bucket = ''b''\<rparr>"

definition sample_rnd :: "8 word list" where
  "sample_rnd = replicate 16 0"

definition post :: "string \<Rightarrow> Request" where
  "post b = \<lparr>Method = ''POST'', Path = ''/jobs'', Body = b\<rparr>"

definition get :: "string \<Rightarrow> Request" where
  "get p = \<lparr>Method = ''GET'', Path = p, Body = []\<rparr>"

text \<open>What a handler answered, and the state it left, when it did not panic.\<close>

definition answered :: "(Response \<times> world) outcome \<Rightarrow> Response option" where
  "answered out = (case out of Panic w \<Rightarrow> None | Return (resp, w) \<Rightarrow> Some resp)"

definition sample_message :: Message where
  \<open>sample_message =
     \<lparr>Message_Body = Some ''{"id":"J","text":"hello"}'', ReceiptHandle = Some ''rh1''\<rparr>\<close>

definition malformed_message :: Message where
  \<open>malformed_message = \<lparr>Message_Body = Some ''hello'', ReceiptHandle = Some ''rh2''\<rparr>\<close>

definition sample_handling :: "string handling" where
  "sample_handling =
     \<lparr>now = ''2024-01-01T00:00:00Z'', putFails = False, deleteFails = False\<rparr>"


definition sample_uuid :: "8 word list" where
  "sample_uuid = [0, 0, 0, 0, 0, 0, 0x40, 0, 0x80, 0, 0, 0, 0, 0, 0, 0]"

definition sample_content :: string where
  \<open>sample_content =
     ''{"id":"J","text":"hello","output":"HELLO","processed_at":"2024-01-01T00:00:00Z"}''\<close>

definition sample_content2 :: string where
  \<open>sample_content2 =
     ''{"id":"J","text":"hello","output":"HELLO","processed_at":"2024-01-02T00:00:00Z"}''\<close>

definition message_without_id :: Message where
  \<open>message_without_id =
     \<lparr>Message_Body = Some ''{"text":"hello"}'', ReceiptHandle = Some ''rh3''\<rparr>\<close>

section \<open>Arithmetic of the UTF-8 bit fields\<close>

lemma mod_shift:
  fixes b :: nat
  assumes "k * n \<le> b" and "b < k * n + n"
  shows "b mod n = b - k * n"
proof -
  define x where "x = b - k * n"
  from assms have b: "b = x + k * n" and x: "x < n"
    by (simp_all add: x_def)
  have "(x + k * n) mod n = x"
    using x by simp
  then show ?thesis
    by (simp add: b)
qed

lemma m32: "192 \<le> b \<Longrightarrow> b < 224 \<Longrightarrow> (b::nat) mod 32 = b - 192"
  using mod_shift [of 6 32 b] by simp

lemma m64: "128 \<le> b \<Longrightarrow> b < 192 \<Longrightarrow> (b::nat) mod 64 = b - 128"
  using mod_shift [of 2 64 b] by simp

lemma m16: "224 \<le> b \<Longrightarrow> b < 240 \<Longrightarrow> (b::nat) mod 16 = b - 224"
  using mod_shift [of 14 16 b] by simp

lemma m8: "240 \<le> b \<Longrightarrow> b < 248 \<Longrightarrow> (b::nat) mod 8 = b - 240"
  using mod_shift [of 30 8 b] by simp

lemma horner64:
  fixes q u :: nat
  assumes "u < 64"
  shows "(q * 64 + u) div 64 = q" and "(q * 64 + u) mod 64 = u"
  using assms by simp_all

lemma split3:
  fixes x y z :: nat
  assumes "y < 64" and "z < 64"
  shows "(x * 4096 + y * 64 + z) div 4096 = x"
    and "((x * 4096 + y * 64 + z) div 64) mod 64 = y"
    and "(x * 4096 + y * 64 + z) mod 64 = z"
proof -
  define q1 where "q1 = x * 64 + y"
  define r where "r = q1 * 64 + z"
  have r: "x * 4096 + y * 64 + z = r"
    by (simp add: r_def q1_def)
  have 1: "r div 64 = q1" "r mod 64 = z"
    unfolding r_def using assms(2) by (rule horner64)+
  have 2: "q1 div 64 = x" "q1 mod 64 = y"
    unfolding q1_def using assms(1) by (rule horner64)+
  have "r div 4096 = r div (64 * 64)"
    by simp
  also have "\<dots> = r div 64 div 64"
    by (rule div_mult2_eq)
  finally have 3: "r div 4096 = x"
    by (simp only: 1 2)
  show "(x * 4096 + y * 64 + z) div 4096 = x"
    and "((x * 4096 + y * 64 + z) div 64) mod 64 = y"
    and "(x * 4096 + y * 64 + z) mod 64 = z"
    by (simp_all only: r 1 2 3)
qed

lemma split4:
  fixes x y z u :: nat
  assumes "y < 64" and "z < 64" and "u < 64"
  shows "(x * 262144 + y * 4096 + z * 64 + u) div 262144 = x"
    and "((x * 262144 + y * 4096 + z * 64 + u) div 4096) mod 64 = y"
    and "((x * 262144 + y * 4096 + z * 64 + u) div 64) mod 64 = z"
    and "(x * 262144 + y * 4096 + z * 64 + u) mod 64 = u"
proof -
  define q1 where "q1 = x * 64 + y"
  define q2 where "q2 = q1 * 64 + z"
  define r where "r = q2 * 64 + u"
  have r: "x * 262144 + y * 4096 + z * 64 + u = r"
    by (simp add: r_def q2_def q1_def)
  have 1: "r div 64 = q2" "r mod 64 = u"
    unfolding r_def using assms(3) by (rule horner64)+
  have 2: "q2 div 64 = q1" "q2 mod 64 = z"
    unfolding q2_def using assms(2) by (rule horner64)+
  have 3: "q1 div 64 = x" "q1 mod 64 = y"
    unfolding q1_def using assms(1) by (rule horner64)+
  have "r div 4096 = r div (64 * 64)"
    by simp
  also have "\<dots> = r div 64 div 64"
    by (rule div_mult2_eq)
  finally have 4: "r div 4096 = q1"
    by (simp only: 1 2)
  have "r div 262144 = r div (64 * 4096)"
    by simp
  also have "\<dots> = r div 64 div 4096"
    by (rule div_mult2_eq)
  also have "\<dots> = q2 div (64 * 64)"
    by (simp add: 1)
  also have "\<dots> = q2 div 64 div 64"
    by (rule div_mult2_eq)
  finally have 5: "r div 262144 = x"
    by (simp only: 2 3)
  show "(x * 262144 + y * 4096 + z * 64 + u) div 262144 = x"
    and "((x * 262144 + y * 4096 + z * 64 + u) div 4096) mod 64 = y"
    and "((x * 262144 + y * 4096 + z * 64 + u) div 64) mod 64 = z"
    and "(x * 262144 + y * 4096 + z * 64 + u) mod 64 = u"
    by (simp_all only: r 1 2 3 4 5)
qed

lemma digits3:
  fixes r :: nat
  shows "r = (r div 4096) * 4096 + ((r div 64) mod 64) * 64 + r mod 64"
proof -
  have "r div 4096 = r div (64 * 64)"
    by simp
  also have "\<dots> = r div 64 div 64"
    by (rule div_mult2_eq)
  finally have 1: "r div 4096 = r div 64 div 64" .
  have a: "r = (r div 64) * 64 + r mod 64"
    by simp
  have b: "r div 64 = (r div 4096) * 64 + (r div 64) mod 64"
    unfolding 1 by simp
  show ?thesis
    by (subst a, subst b) (simp add: algebra_simps)
qed

lemma digits4:
  fixes r :: nat
  shows "r = (r div 262144) * 262144 + ((r div 4096) mod 64) * 4096
             + ((r div 64) mod 64) * 64 + r mod 64"
proof -
  have "r div 4096 = r div (64 * 64)"
    by simp
  also have "\<dots> = r div 64 div 64"
    by (rule div_mult2_eq)
  finally have 1: "r div 4096 = r div 64 div 64" .
  have "r div 262144 = r div (4096 * 64)"
    by simp
  also have "\<dots> = r div 4096 div 64"
    by (rule div_mult2_eq)
  finally have 2: "r div 262144 = r div 4096 div 64" .
  have a: "r = (r div 64) * 64 + r mod 64"
    by simp
  have b: "r div 64 = (r div 4096) * 64 + (r div 64) mod 64"
    unfolding 1 by simp
  have c: "r div 4096 = (r div 262144) * 64 + (r div 4096) mod 64"
    unfolding 2 by simp
  show ?thesis
    by (subst a, subst b, subst c) (simp add: algebra_simps)
qed

section \<open>UTF-8: decoding and encoding are inverse to each other\<close>

lemma encode_decoded2:
  assumes "0xC2 \<le> b0" and "b0 \<le> 0xDF" and "cont b1"
  shows "EncodeRune ((b0 mod 32) * 64 + b1 mod 64) = [b0, b1]"
proof -
  define x where "x = b0 - 192"
  define y where "y = b1 - 128"
  from assms have b: "b0 = 192 + x" "b1 = 128 + y" and r: "2 \<le> x" "x < 32" "y < 64"
    by (auto simp: x_def y_def cont_def)
  have m: "b0 mod 32 = x" "b1 mod 64 = y"
    using m32 [of b0] m64 [of b1] b r by simp_all
  have d: "(x * 64 + y) div 64 = x" "(x * 64 + y) mod 64 = y"
    using r by (simp_all add: horner64)
  have "128 \<le> x * 64 + y" "x * 64 + y \<le> 2047"
    using r by simp_all
  then show ?thesis
    unfolding m EncodeRune_def using r by (simp add: b)
qed

lemma encode_decoded3:
  assumes "0xE0 \<le> b0" and "b0 \<le> 0xEF"
    and "(if b0 = 0xE0 then 0xA0 else 0x80) \<le> b1"
    and "b1 \<le> (if b0 = 0xED then 0x9F else 0xBF)" and "cont b2"
  shows "EncodeRune ((b0 mod 16) * 4096 + (b1 mod 64) * 64 + b2 mod 64) = [b0, b1, b2]"
proof -
  define x where "x = b0 - 224"
  define y where "y = b1 - 128"
  define z where "z = b2 - 128"
  from assms have b: "b0 = 224 + x" "b1 = 128 + y" "b2 = 128 + z"
    and r: "x < 16" "y < 64" "z < 64" "x = 0 \<longrightarrow> 32 \<le> y" "x = 13 \<longrightarrow> y < 32"
    by (auto simp: x_def y_def z_def cont_def split: if_splits)
  have m: "b0 mod 16 = x" "b1 mod 64 = y" "b2 mod 64 = z"
    using m16 [of b0] m64 [of b1] m64 [of b2] b r by simp_all
  define v where "v = x * 4096 + y * 64 + z"
  have d: "v div 4096 = x" "(v div 64) mod 64 = y" "v mod 64 = z"
    unfolding v_def using r by (simp_all only: split3)
  have "x \<le> 12 \<or> x = 13 \<or> 14 \<le> x"
    by arith
  then have "\<not> (55296 \<le> v \<and> v \<le> 57343)"
    using r unfolding v_def by (elim disjE) simp_all
  moreover have "2048 \<le> v" "v \<le> 65535"
    using r unfolding v_def by auto
  ultimately have "EncodeRune v = [224 + v div 4096, 128 + (v div 64) mod 64, 128 + v mod 64]"
    unfolding EncodeRune_def by auto
  then show ?thesis
    unfolding m v_def [symmetric] by (simp only: d b)
qed

lemma encode_decoded4:
  assumes "0xF0 \<le> b0" and "b0 \<le> 0xF4"
    and "(if b0 = 0xF0 then 0x90 else 0x80) \<le> b1"
    and "b1 \<le> (if b0 = 0xF4 then 0x8F else 0xBF)" and "cont b2" and "cont b3"
  shows "EncodeRune ((b0 mod 8) * 262144 + (b1 mod 64) * 4096 + (b2 mod 64) * 64 + b3 mod 64)
           = [b0, b1, b2, b3]"
proof -
  define x where "x = b0 - 240"
  define y where "y = b1 - 128"
  define z where "z = b2 - 128"
  define u where "u = b3 - 128"
  from assms have b: "b0 = 240 + x" "b1 = 128 + y" "b2 = 128 + z" "b3 = 128 + u"
    and r: "x < 5" "y < 64" "z < 64" "u < 64" "x = 0 \<longrightarrow> 16 \<le> y" "x = 4 \<longrightarrow> y < 16"
    by (auto simp: x_def y_def z_def u_def cont_def split: if_splits)
  have m: "b0 mod 8 = x" "b1 mod 64 = y" "b2 mod 64 = z" "b3 mod 64 = u"
    using m8 [of b0] m64 [of b1] m64 [of b2] m64 [of b3] b r by simp_all
  define v where "v = x * 262144 + y * 4096 + z * 64 + u"
  have d: "v div 262144 = x" "(v div 4096) mod 64 = y" "(v div 64) mod 64 = z" "v mod 64 = u"
    unfolding v_def using r by (simp_all only: split4)
  have "65536 \<le> v" "v \<le> 1114111"
    using r unfolding v_def by auto
  then have "EncodeRune v = [240 + v div 262144, 128 + (v div 4096) mod 64,
                            128 + (v div 64) mod 64, 128 + v mod 64]"
    unfolding EncodeRune_def by simp
  then show ?thesis
    unfolding m v_def [symmetric] by (simp only: d b)
qed

lemma DecodeRune_width:
  "DecodeRune bs = (r, n) \<Longrightarrow> n \<le> 4 \<and> n \<le> length bs \<and> (bs \<noteq> [] \<longrightarrow> 1 \<le> n)"
  by (cases bs) (auto split: if_splits list.splits)

lemma DecodeRune_2:
  assumes "DecodeRune bs = (r, 2)"
  obtains b0 b1 rest where "bs = b0 # b1 # rest" "0xC2 \<le> b0" "b0 \<le> 0xDF" "cont b1"
    "r = (b0 mod 32) * 64 + b1 mod 64"
  using assms by (cases bs) (auto split: if_splits list.splits)

lemma DecodeRune_3:
  assumes "DecodeRune bs = (r, 3)"
  obtains b0 b1 b2 rest where "bs = b0 # b1 # b2 # rest" "0xE0 \<le> b0" "b0 \<le> 0xEF"
    "(if b0 = 0xE0 then 0xA0 else 0x80) \<le> b1" "b1 \<le> (if b0 = 0xED then 0x9F else 0xBF)" "cont b2"
    "r = (b0 mod 16) * 4096 + (b1 mod 64) * 64 + b2 mod 64"
  using assms by (cases bs) (auto split: if_splits list.splits)

lemma DecodeRune_4:
  assumes "DecodeRune bs = (r, 4)"
  obtains b0 b1 b2 b3 rest where "bs = b0 # b1 # b2 # b3 # rest" "0xF0 \<le> b0" "b0 \<le> 0xF4"
    "(if b0 = 0xF0 then 0x90 else 0x80) \<le> b1" "b1 \<le> (if b0 = 0xF4 then 0x8F else 0xBF)"
    "cont b2" "cont b3"
    "r = (b0 mod 8) * 262144 + (b1 mod 64) * 4096 + (b2 mod 64) * 64 + b3 mod 64"
  using assms by (cases bs) (auto split: if_splits list.splits)

lemma DecodeRune_multi:
  assumes "DecodeRune bs = (r, n)" and "2 \<le> n"
  shows "EncodeRune r = take n bs" and "list_all (\<lambda>b. 0x80 \<le> b \<and> b < 256) (take n bs)"
    and "DecodeRune (take n bs @ t) = (r, n)"
proof -
  from DecodeRune_width [OF assms(1)] assms(2) consider "n = 2" | "n = 3" | "n = 4"
    by arith
  then have "EncodeRune r = take n bs \<and> list_all (\<lambda>b. 0x80 \<le> b \<and> b < 256) (take n bs)
             \<and> DecodeRune (take n bs @ t) = (r, n)"
  proof cases
    case 1
    from assms(1) [unfolded 1] show ?thesis
    proof (rule DecodeRune_2)
      fix b0 b1 rest
      assume "bs = b0 # b1 # rest" "0xC2 \<le> b0" "b0 \<le> 0xDF" "cont b1"
        "r = (b0 mod 32) * 64 + b1 mod 64"
      then show ?thesis
        using encode_decoded2 [of b0 b1] by (simp add: 1 cont_def)
    qed
  next
    case 2
    from assms(1) [unfolded 2] show ?thesis
    proof (rule DecodeRune_3)
      fix b0 b1 b2 rest
      assume "bs = b0 # b1 # b2 # rest" "0xE0 \<le> b0" "b0 \<le> 0xEF"
        "(if b0 = 0xE0 then 0xA0 else 0x80) \<le> b1" "b1 \<le> (if b0 = 0xED then 0x9F else 0xBF)"
        "cont b2" "r = (b0 mod 16) * 4096 + (b1 mod 64) * 64 + b2 mod 64"
      then show ?thesis
        using encode_decoded3 [of b0 b1 b2] by (auto simp: 2 cont_def split: if_splits)
    qed
  next
    case 3
    from assms(1) [unfolded 3] show ?thesis
    proof (rule DecodeRune_4)
      fix b0 b1 b2 b3 rest
      assume "bs = b0 # b1 # b2 # b3 # rest" "0xF0 \<le> b0" "b0 \<le> 0xF4"
        "(if b0 = 0xF0 then 0x90 else 0x80) \<le> b1" "b1 \<le> (if b0 = 0xF4 then 0x8F else 0xBF)"
        "cont b2" "cont b3"
        "r = (b0 mod 8) * 262144 + (b1 mod 64) * 4096 + (b2 mod 64) * 64 + b3 mod 64"
      then show ?thesis
        using encode_decoded4 [of b0 b1 b2 b3] by (auto simp: 3 cont_def split: if_splits)
    qed
  qed
  then show "EncodeRune r = take n bs" and "list_all (\<lambda>b. 0x80 \<le> b \<and> b < 256) (take n bs)"
    and "DecodeRune (take n bs @ t) = (r, n)"
    by simp_all
qed

lemma DecodeRune_replacement: "DecodeRune (0xEF # 0xBF # 0xBD # t) = (RuneError, 3)"
  by (simp add: cont_def RuneError_def)

lemma DecodeRune_EncodeRune:
  "DecodeRune (EncodeRune r @ t) = (validRune r, length (EncodeRune r))"
proof -
  consider "r \<le> 0x7F" | "0x7F < r" "r \<le> 0x7FF"
    | "0x7FF < r" "0x10FFFF < r \<or> (0xD800 \<le> r \<and> r \<le> 0xDFFF)"
    | "0x7FF < r" "r \<le> 0xFFFF" "\<not> (0xD800 \<le> r \<and> r \<le> 0xDFFF)"
    | "0xFFFF < r" "r \<le> 0x10FFFF"
    by arith
  then show ?thesis
  proof cases
    case 1
    then show ?thesis
      by (simp add: EncodeRune_def validRune_def)
  next
    case 2
    define x where "x = r div 64"
    define y where "y = r mod 64"
    have r: "r = x * 64 + y" and y: "y < 64"
      by (simp_all add: x_def y_def)
    from 2 have x: "2 \<le> x" "x < 32"
      unfolding r using y by simp_all
    have m: "(192 + x) mod 32 = x" "(128 + y) mod 64 = y"
      using m32 [of "192 + x"] m64 [of "128 + y"] x y by simp_all
    have e: "EncodeRune r = [192 + x, 128 + y]"
      using 2 by (simp add: EncodeRune_def x_def y_def)
    have "DecodeRune ((192 + x) # (128 + y) # t) = (x * 64 + y, 2)"
      using x y by (simp add: cont_def m)
    with 2 show ?thesis
      by (simp add: e validRune_def r [symmetric])
  next
    case 3
    then have "EncodeRune r = [0xEF, 0xBF, 0xBD]"
      by (simp add: EncodeRune_def)
    with 3 show ?thesis
      using DecodeRune_replacement [of t] by (simp add: validRune_def)
  next
    case 4
    define x where "x = r div 4096"
    define y where "y = (r div 64) mod 64"
    define z where "z = r mod 64"
    have r: "r = x * 4096 + y * 64 + z" and y: "y < 64" "z < 64"
      using digits3 [of r] by (simp_all add: x_def y_def z_def)
    from 4 have x: "x < 16" "x = 0 \<longrightarrow> 32 \<le> y" "x = 13 \<longrightarrow> y < 32"
      unfolding r using y by auto
    have m: "(224 + x) mod 16 = x" "(128 + y) mod 64 = y" "(128 + z) mod 64 = z"
      using m16 [of "224 + x"] m64 [of "128 + y"] m64 [of "128 + z"] x y by simp_all
    have e: "EncodeRune r = [224 + x, 128 + y, 128 + z]"
      using 4 by (auto simp: EncodeRune_def x_def y_def z_def)
    have "DecodeRune ((224 + x) # (128 + y) # (128 + z) # t) = (x * 4096 + y * 64 + z, 3)"
      using x y by (auto simp: cont_def m)
    with 4 show ?thesis
      by (auto simp: e validRune_def r [symmetric])
  next
    case 5
    define x where "x = r div 262144"
    define y where "y = (r div 4096) mod 64"
    define z where "z = (r div 64) mod 64"
    define u where "u = r mod 64"
    have r: "r = x * 262144 + y * 4096 + z * 64 + u" and y: "y < 64" "z < 64" "u < 64"
      using digits4 [of r] by (simp_all add: x_def y_def z_def u_def)
    from 5 have x: "x < 5" "x = 0 \<longrightarrow> 16 \<le> y" "x = 4 \<longrightarrow> y < 16"
      unfolding r using y by auto
    have m: "(240 + x) mod 8 = x" "(128 + y) mod 64 = y" "(128 + z) mod 64 = z"
      "(128 + u) mod 64 = u"
      using m8 [of "240 + x"] m64 [of "128 + y"] m64 [of "128 + z"] m64 [of "128 + u"] x y
      by simp_all
    have e: "EncodeRune r = [240 + x, 128 + y, 128 + z, 128 + u]"
      using 5 by (auto simp: EncodeRune_def x_def y_def z_def u_def)
    have "DecodeRune ((240 + x) # (128 + y) # (128 + z) # (128 + u) # t)
            = (x * 262144 + y * 4096 + z * 64 + u, 4)"
      using x y by (auto simp: cont_def m)
    with 5 show ?thesis
      by (auto simp: e validRune_def r [symmetric])
  qed
qed

lemma byte_less: "byte c < 256"
  by (simp add: byte_def)

lemma char_of_byte: "char_of (byte c) = c"
  by (simp add: byte_def)

lemma byte_char_of: "n < 256 \<Longrightarrow> byte (char_of n) = n"
  by (simp add: byte_def)

lemma map_char_of_byte: "map char_of (map byte s) = s"
  by (induction s) (simp_all add: char_of_byte)

lemma decodeRune_width:
  "decodeRune s = (r, n) \<Longrightarrow> n \<le> 4 \<and> n \<le> length s \<and> (s \<noteq> [] \<longrightarrow> 1 \<le> n)"
  using DecodeRune_width [of "map byte s" r n] by (simp add: decodeRune_def)

lemma decodeRune_ascii: "byte c < 0x80 \<Longrightarrow> decodeRune (c # cs) = (byte c, 1)"
  by (simp add: decodeRune_def)

lemma decodeRune_single:
  "0x80 \<le> byte c \<Longrightarrow> snd (decodeRune (c # cs)) = 1 \<Longrightarrow> decodeRune (c # cs) = (RuneError, 1)"
  by (auto simp: decodeRune_def split: if_splits list.splits)

lemma decodeRune_wide:
  assumes "0x80 \<le> byte c" and "decodeRune (c # cs) \<noteq> (RuneError, 1)"
  shows "2 \<le> snd (decodeRune (c # cs))"
proof -
  obtain r n where d: "decodeRune (c # cs) = (r, n)"
    by (cases "decodeRune (c # cs)")
  from decodeRune_width [OF d] have "1 \<le> n"
    by simp
  moreover have "n \<noteq> 1"
    using decodeRune_single [OF assms(1), of cs] assms(2) d by auto
  ultimately show ?thesis
    using d by simp
qed

lemma decodeRune_multi:
  assumes "decodeRune s = (r, n)" and "2 \<le> n"
  shows "encodeRune r = take n s" and "list_all (\<lambda>c. 0x80 \<le> byte c) (take n s)"
    and "decodeRune (take n s @ t) = (r, n)" and "n \<le> length s"
proof -
  from assms(1) have d: "DecodeRune (map byte s) = (r, n)"
    by (simp add: decodeRune_def)
  from DecodeRune_multi(1) [OF d assms(2)] have "encodeRune r = map char_of (map byte (take n s))"
    by (simp add: encodeRune_def take_map)
  then show "encodeRune r = take n s"
    by (simp only: map_char_of_byte)
  from DecodeRune_multi(2) [OF d assms(2)] have "list_all (\<lambda>b. 0x80 \<le> b \<and> b < 256) (map byte (take n s))"
    by (simp only: take_map)
  then show "list_all (\<lambda>c. 0x80 \<le> byte c) (take n s)"
    by (simp add: list_all_iff)
  from DecodeRune_multi(3) [OF d assms(2), of "map byte t"] show "decodeRune (take n s @ t) = (r, n)"
    by (simp add: decodeRune_def take_map)
  from decodeRune_width [OF assms(1)] show "n \<le> length s"
    by simp
qed

lemma EncodeRune_ascii: "r \<le> 0x7F \<Longrightarrow> EncodeRune r = [r]"
  by (simp add: EncodeRune_def)

lemma EncodeRune_wide: "0x7F < r \<Longrightarrow> 2 \<le> length (EncodeRune r)"
  by (simp add: EncodeRune_def)

lemma EncodeRune_bytes: "list_all (\<lambda>b. b < 256) (EncodeRune r)"
proof (cases "r \<le> 0x7F")
  case True
  then show ?thesis
    by (simp add: EncodeRune_ascii)
next
  case False
  then have w: "2 \<le> length (EncodeRune r)"
    by (simp add: EncodeRune_wide)
  from DecodeRune_multi(2) [OF DecodeRune_EncodeRune [of r "[]", simplified] w]
  show ?thesis
    by (simp add: list_all_iff)
qed

lemma map_byte_encodeRune: "map byte (encodeRune r) = EncodeRune r"
proof -
  have "list_all (\<lambda>b. b < 256) bs \<Longrightarrow> map byte (map char_of bs) = bs" for bs :: "nat list"
    by (induction bs) (simp_all add: byte_char_of)
  from this [OF EncodeRune_bytes] show ?thesis
    by (simp add: encodeRune_def)
qed

lemma decodeRune_encodeRune:
  "decodeRune (encodeRune r @ t) = (validRune r, length (encodeRune r))"
  using DecodeRune_EncodeRune [of r "map byte t"]
  by (simp add: decodeRune_def map_byte_encodeRune) (simp add: encodeRune_def)

lemma encodeRune_ascii: "r \<le> 0x7F \<Longrightarrow> encodeRune r = [char_of r]"
  by (simp add: encodeRune_def EncodeRune_ascii)

lemma encodeRune_wide:
  assumes "0x7F < r"
  shows "2 \<le> length (encodeRune r)" and "list_all (\<lambda>c. 0x80 \<le> byte c) (encodeRune r)"
proof -
  show w: "2 \<le> length (encodeRune r)"
    using EncodeRune_wide [OF assms] by (simp add: encodeRune_def)
  from decodeRune_multi(2) [OF decodeRune_encodeRune [of r "[]", simplified] w]
  show "list_all (\<lambda>c. 0x80 \<le> byte c) (encodeRune r)"
    by simp
qed

lemma valid_utf8_encodeRune: "valid_utf8 (encodeRune r @ t) = valid_utf8 t"
proof (cases "r \<le> 0x7F")
  case True
  then have "byte (char_of r) < 0x80"
    by (simp add: byte_char_of)
  with True show ?thesis
    by (simp add: encodeRune_ascii)
next
  case False
  then have w: "2 \<le> length (encodeRune r)" and h: "list_all (\<lambda>c. 0x80 \<le> byte c) (encodeRune r)"
    by (simp_all add: encodeRune_wide)
  then obtain c cs where e: "encodeRune r = c # cs"
    by (cases "encodeRune r") auto
  with h have c: "\<not> byte c < 0x80"
    by simp
  have d: "decodeRune (c # cs @ t) = (validRune r, Suc (length cs))"
    using decodeRune_encodeRune [of r t] by (simp add: e)
  from w e have "Suc (length cs) \<noteq> 1"
    by auto
  with c d show ?thesis
    by (simp add: e)
qed

section \<open>The scanner accepts what appendString writes\<close>

lemma scanString_plain1:
  "plain c \<Longrightarrow> scanString (c # rest) = map_option (\<lambda>(r, rest'). (c # r, rest')) (scanString rest)"
  by (simp add: plain_def)

lemma scanString_plain:
  "list_all plain p \<Longrightarrow>
   scanString (p @ rest) = map_option (\<lambda>(r, rest'). (p @ r, rest')) (scanString rest)"
proof (induction p)
  case Nil
  show ?case by (simp add: option.map_ident)
next
  case (Cons c p)
  then show ?case
    by (simp add: scanString_plain1 option.map_comp comp_def case_prod_unfold del: scanString.simps)
qed

lemma high_plain: "0x80 \<le> byte c \<Longrightarrow> plain c"
  by (auto simp: plain_def quote_def backslash_def byte_def)

lemma htmlSafe_plain: "htmlSafe c \<Longrightarrow> plain c"
  by (simp add: htmlSafe_def plain_def)

lemma hexdigit_cases:
  "hexdigit n \<in> set ''0123456789abcdef''"
proof -
  have "n mod 16 < length ''0123456789abcdef''"
    by simp
  then show ?thesis
    unfolding hexdigit_def by (rule nth_mem)
qed

lemma isHex_hexdigit: "isHex (hexdigit n)"
  using hexdigit_cases [of n] by (auto simp: isHex_def isDigit_def byte_def)

lemma isHex_literal:
  "isHex (CHR ''0'')" "isHex (CHR ''2'')" "isHex (CHR ''f'')" "isHex (CHR ''d'')"
  by (simp_all add: isHex_def isDigit_def byte_def)

lemma scanString_escapeASCII:
  "scanString (escapeASCII c @ rest)
     = map_option (\<lambda>(r, rest'). (escapeASCII c @ r, rest')) (scanString rest)"
  by (simp add: escapeASCII_def isHex_hexdigit isHex_literal quote_def backslash_def)

lemma scanString_escapeString:
  "scanString (escapeString s @ quote # rest) = Some (escapeString s, rest)"
proof (induction s rule: escapeString.induct)
  case 1
  show ?case by simp
next
  case (2 c cs)
  let ?d = "decodeRune (c # cs)"
  show ?case
  proof (cases "byte c < 0x80")
    case True
    with 2(1) show ?thesis
      by (simp add: scanString_escapeASCII scanString_plain1 htmlSafe_plain del: scanString.simps)
  next
    case False
    note high = this
    show ?thesis
    proof (cases "?d = (RuneError, 1)")
      case True
      with high 2(2) show ?thesis
        by (simp add: isHex_literal quote_def backslash_def)
    next
      case False
      note valid = this
      from high valid have w: "2 \<le> snd ?d"
        by (simp add: decodeRune_wide)
      have p: "list_all plain (take (snd ?d) (c # cs))"
        using decodeRune_multi(2) [OF prod.collapse [symmetric] w]
        by (simp add: list_all_iff high_plain)
      show ?thesis
      proof (cases "fst ?d = 0x2028 \<or> fst ?d = 0x2029")
        case True
        with high valid 2(3) show ?thesis
          by (simp add: isHex_literal isHex_hexdigit quote_def backslash_def)
      next
        case False
        with high valid 2(4) show ?thesis
          using scanString_plain [OF p] by (simp del: scanString.simps)
      qed
    qed
  qed
qed

section \<open>Unquoting undoes the escaping\<close>

lemma hexval_hexdigit_all: "\<forall>k \<in> set [0..<16]. hexval (hexdigit k) = k"
  by code_simp

lemma hexval_hexdigit: "k < 16 \<Longrightarrow> hexval (hexdigit k) = k"
  using hexval_hexdigit_all by simp

lemma hexval_literal: "hexval (CHR ''0'') = 0" "hexval (CHR ''2'') = 2"
  by (simp_all add: hexval_def isDigit_def byte_def)

lemma high_not_special:
  "0x80 \<le> byte c \<Longrightarrow> c \<noteq> quote \<and> c \<noteq> backslash \<and> \<not> byte c < 0x20 \<and> \<not> byte c < 0x80"
  by (auto simp: quote_def backslash_def byte_def)

lemma unquote_htmlSafe: "htmlSafe c \<Longrightarrow> unquote (c # t) = c # unquote t"
  by (simp add: htmlSafe_def)

lemma getu4_escape:
  assumes "byte c < 0x80"
  shows "getu4 (backslash # CHR ''u'' # CHR ''0'' # CHR ''0'' # hexdigit (byte c div 16)
                 # hexdigit (byte c mod 16) # t) = Some (byte c)"
proof -
  from assms have "byte c div 16 < 16"
    by simp
  then show ?thesis
    by (simp add: getu4_def isHex_literal isHex_hexdigit hexval_literal hexval_hexdigit)
qed

lemma unquote_escapeASCII:
  assumes "byte c < 0x80" and "\<not> htmlSafe c"
  shows "unquote (escapeASCII c @ t) = c # unquote t"
proof -
  have e: "encodeRune (byte c) = [c]"
    using assms(1) by (simp add: encodeRune_ascii char_of_byte)
  have u: "CHR ''u'' \<noteq> backslash" "CHR ''u'' \<noteq> quote"
    by (simp_all add: backslash_def quote_def)
  show ?thesis
    using assms getu4_escape [OF assms(1), of t]
    by (auto simp: escapeASCII_def unescape_def e quote_def backslash_def)
qed

lemma unquote_separator:
  assumes "r = 0x2028 \<or> r = 0x2029"
  shows "unquote (backslash # ''u202'' @ [hexdigit (r mod 16)] @ t) = encodeRune r @ unquote t"
proof -
  from assms have h: "hexval (hexdigit (r mod 16)) = r mod 16"
    by (intro hexval_hexdigit) auto
  from assms have "getu4 (backslash # CHR ''u'' # CHR ''2'' # CHR ''0'' # CHR ''2''
                           # hexdigit (r mod 16) # t) = Some r"
    by (auto simp: getu4_def isHex_literal isHex_hexdigit hexval_literal h)
  with assms show ?thesis
    by (auto simp: backslash_def)
qed

lemma unquote_raw:
  assumes "decodeRune (c # cs) = (r, n)" and "2 \<le> n" and "0x80 \<le> byte c"
  shows "unquote (take n (c # cs) @ t) = take n (c # cs) @ unquote t"
proof -
  from assms(2) obtain k where n: "n = Suc k"
    by (cases n) auto
  from decodeRune_multi(4) [OF assms(1,2)] have k: "k \<le> length cs"
    by (simp add: n)
  have d: "decodeRune (c # take k cs @ t) = (r, Suc k)"
    using decodeRune_multi(3) [OF assms(1,2), of t] by (simp add: n)
  have e: "encodeRune r = c # take k cs"
    using decodeRune_multi(1) [OF assms(1,2)] by (simp add: n)
  from k have "drop k (take k cs @ t) = t"
    by simp
  then show ?thesis
    using high_not_special [OF assms(3)] by (simp add: n d e)
qed

lemma unquote_escapeString: "valid_utf8 s \<Longrightarrow> unquote (escapeString s) = s"
proof (induction s rule: escapeString.induct)
  case 1
  show ?case by simp
next
  case (2 c cs)
  let ?d = "decodeRune (c # cs)"
  show ?case
  proof (cases "byte c < 0x80")
    case True
    with 2(1,5) show ?thesis
      by (simp add: unquote_htmlSafe unquote_escapeASCII del: unquote.simps)
  next
    case False
    with 2(5) have valid: "?d \<noteq> (RuneError, 1)"
      and rest: "valid_utf8 (drop (snd ?d - 1) cs)"
      by simp_all
    from False valid have w: "2 \<le> snd ?d"
      by (simp add: decodeRune_wide)
    have t: "take (snd ?d) (c # cs) @ drop (snd ?d - 1) cs = c # cs"
      using w append_take_drop_id [of "snd ?d" "c # cs"] by (cases "snd ?d") simp_all
    show ?thesis
    proof (cases "fst ?d = 0x2028 \<or> fst ?d = 0x2029")
      case True
      have "encodeRune (fst ?d) = take (snd ?d) (c # cs)"
        using decodeRune_multi(1) [OF prod.collapse [symmetric] w] .
      with True False valid 2(3) [OF False valid True rest] show ?thesis
        using unquote_separator [OF True, of "escapeString (drop (snd ?d - 1) cs)"] t
        by (simp del: unquote.simps)
    next
      case nosep: False
      from False have h: "0x80 \<le> byte c"
        by simp
      from nosep False valid 2(4) [OF False valid nosep rest] show ?thesis
        using unquote_raw [OF prod.collapse [symmetric] w h, of "escapeString (drop (snd ?d - 1) cs)"] t
        by (simp del: unquote.simps)
    qed
  qed
qed

lemma unescape_ascii: "unescape e = Some x \<Longrightarrow> byte x < 0x80"
  by (auto simp: unescape_def quote_def backslash_def byte_def split: if_splits)

lemma valid_utf8_unquote: "valid_utf8 (unquote raw)"
proof (induction raw rule: unquote.induct)
  case 1
  show ?case by simp
next
  case (2 c cs)
  show ?case
  proof (cases "c = backslash")
    case True
    with 2(1-4) show ?thesis
      by (auto simp: valid_utf8_encodeRune unescape_ascii split: list.splits option.splits)
  next
    case False
    with 2(5,6) show ?thesis
      by (auto simp: valid_utf8_encodeRune)
  qed
qed

section \<open>The scanners consume input\<close>

text \<open>
  The two tests on lengths in \<open>parse\<close> always hold: a string or a scalar that is
  scanned leaves strictly less input than it was given.
\<close>

lemma scanString_shorter: "scanString s = Some (k, rest) \<Longrightarrow> length rest < length s"
proof (induction s arbitrary: k rule: scanString.induct)
  case 1
  then show ?case by simp
next
  case (2 c cs)
  show ?case
  proof (cases "c = quote")
    case True
    with 2(4) show ?thesis by simp
  next
    case False
    note nq = this
    show ?thesis
    proof (cases "c = backslash")
      case True
      show ?thesis
      proof (cases cs)
        case Nil
        with 2(4) nq True show ?thesis by simp
      next
        case (Cons e cs1)
        show ?thesis
        proof (cases "e \<in> set ''bfnrt/'' \<or> e = backslash \<or> e = quote")
          case simple: True
          with 2(4) nq True Cons obtain r where "scanString cs1 = Some (r, rest)"
            by (auto simp del: set_simps)
          from 2(1) [OF nq True Cons simple this] Cons show ?thesis
            by simp
        next
          case notsimple: False
          with 2(4) nq True Cons obtain h1 h2 h3 h4 cs2 r
            where u: "e = CHR ''u''" and c: "cs1 = h1 # h2 # h3 # h4 # cs2"
              and h: "isHex h1 \<and> isHex h2 \<and> isHex h3 \<and> isHex h4"
              and s: "scanString cs2 = Some (r, rest)"
            by (auto simp del: set_simps split: if_splits list.splits)
          from 2(2) [OF nq True Cons notsimple u c refl refl refl h s] Cons c show ?thesis
            by simp
        qed
      qed
    next
      case False
      with 2(4) nq obtain r where "\<not> byte c < 0x20" "scanString cs = Some (r, rest)"
        by (auto split: if_splits)
      from 2(3) [OF nq False this] show ?thesis
        by simp
    qed
  qed
qed

lemma scanDigits1_shorter: "scanDigits1 s = Some (d, rest) \<Longrightarrow> length rest < length s"
  by (cases s) (auto simp: scanDigits1_def split: if_splits intro: le_imp_less_Suc length_dropWhile_le)

lemma scanInt_shorter: "scanInt s = Some (d, rest) \<Longrightarrow> length rest < length s"
  by (cases s) (auto simp: scanInt_def split: if_splits intro: le_imp_less_Suc length_dropWhile_le)

lemma scanFrac_shorter: "scanFrac s = Some (d, rest) \<Longrightarrow> length rest \<le> length s"
  by (cases s) (auto simp: scanFrac_def split: if_splits dest!: scanDigits1_shorter)

lemma scanExp_shorter: "scanExp s = Some (d, rest) \<Longrightarrow> length rest \<le> length s"
  by (cases s) (auto simp: scanExp_def split: if_splits list.splits dest!: scanDigits1_shorter)

lemma scanNumber_shorter:
  assumes "scanNumber s = Some (n, rest)"
  shows "length rest < length s"
proof -
  from assms obtain sign s1 i s2 f s3 e
    where 1: "(sign, s1) = (case s of c # cs \<Rightarrow> if c = CHR ''-'' then ([c], cs) else ([], s) | [] \<Rightarrow> ([], s))"
      and 2: "scanInt s1 = Some (i, s2)" and 3: "scanFrac s2 = Some (f, s3)"
      and 4: "scanExp s3 = Some (e, rest)"
    by (auto simp: scanNumber_def Let_def split: prod.splits option.splits)
  from 1 have "length s1 \<le> length s"
    by (auto split: list.splits if_splits)
  with scanInt_shorter [OF 2] scanFrac_shorter [OF 3] scanExp_shorter [OF 4] show ?thesis
    by simp
qed

lemma scanScalar_shorter: "scanScalar s = Some (v, rest) \<Longrightarrow> length rest < length s"
  by (cases s)
     (auto simp: scanScalar_def split: if_splits dest!: scanString_shorter scanNumber_shorter)

section \<open>Parsing an encoded struct\<close>

lemma parse_open:
  "parse BeginValue [] (CHR ''{'' # rest) = parse BeginStringOrEmpty [FObject [] None] rest"
  by (simp add: isSpace_def maxNestingDepth_def)

lemma parse_first_key:
  assumes "scanString s = Some (k, rest)"
  shows "parse BeginStringOrEmpty st (quote # s) = parse (EndValue (JString k)) st rest"
  using assms scanString_shorter [OF assms] by (simp add: isSpace_def quote_def)

lemma parse_next_key:
  assumes "scanString s = Some (k, rest)"
  shows "parse BeginString st (quote # s) = parse (EndValue (JString k)) st rest"
  using assms scanString_shorter [OF assms] by (simp add: isSpace_def quote_def)

lemma parse_colon:
  "parse (EndValue (JString k)) (FObject ms None # st) (CHR '':'' # rest)
     = parse BeginValue (FObject ms (Some k) # st) rest"
  by (simp add: isSpace_def)

lemma parse_string_value:
  assumes "scanString s = Some (raw, rest)"
  shows "parse BeginValue st (quote # s) = parse (EndValue (JString raw)) st rest"
  using assms scanString_shorter [OF assms] by (simp add: isSpace_def quote_def scanScalar_def)

lemma parse_comma:
  "parse (EndValue v) (FObject ms (Some k) # st) (CHR '','' # rest)
     = parse BeginString (FObject (ms @ [(k, v)]) None # st) rest"
  by (simp add: isSpace_def)

lemma parse_close:
  "parse (EndValue v) (FObject ms (Some k) # st) (CHR ''}'' # rest)
     = parse (EndValue (JObject (ms @ [(k, v)]))) st rest"
  by (simp add: isSpace_def)

lemma parse_end: "parse (EndValue v) [] rest = Some (v, rest)"
  by (cases rest) simp_all

lemma scanString_quote: "scanString (quote # rest) = Some ([], rest)"
  by simp

lemma scanString_name:
  "list_all plain name \<Longrightarrow> scanString (name @ quote # rest) = Some (name, rest)"
  by (simp add: scanString_plain scanString_quote del: scanString.simps)

lemma parse_first_member:
  assumes "list_all plain name" and "scanString s = Some (raw, rest)"
  shows "parse BeginStringOrEmpty (FObject ms None # st) (member name (quote # s))
           = parse (EndValue (JString raw)) (FObject ms (Some name) # st) rest"
  unfolding member_def
  by (simp only: append_Cons append_Nil parse_first_key [OF scanString_name [OF assms(1)]]
        parse_colon parse_string_value [OF assms(2)])

lemma parse_next_member:
  assumes "list_all plain name" and "scanString s = Some (raw, rest)"
  shows "parse (EndValue v) (FObject ms (Some k) # st) (CHR '','' # member name (quote # s))
           = parse (EndValue (JString raw)) (FObject (ms @ [(k, v)]) (Some name) # st) rest"
  unfolding member_def
  by (simp only: append_Cons append_Nil parse_comma parse_next_key [OF scanString_name [OF assms(1)]]
        parse_colon parse_string_value [OF assms(2)])

lemma member_append: "member name v @ rest = member name (v @ rest)"
  by (simp add: member_def)

lemma plain_names:
  "list_all plain ''id''" "list_all plain ''text''" "list_all plain ''output''"
  "list_all plain ''processed_at''"
  by (simp_all add: plain_def quote_def backslash_def byte_def)

lemma parse_JobMessage:
  assumes "Marshal_JobMessage m = Some b"
  shows "parse BeginValue [] (b @ rest)
           = Some (JObject [(''id'', JString (escapeString (msg_ID m))),
                            (''text'', JString (escapeString (msg_Text m)))], rest)"
proof -
  let ?r2 = "CHR ''}'' # rest"
  let ?r1 = "CHR '','' # member ''text'' (quote # escapeString (msg_Text m) @ quote # ?r2)"
  from assms have b: "b @ rest = CHR ''{'' # member ''id'' (quote # escapeString (msg_ID m) @ quote # ?r1)"
    by (auto simp: Marshal_JobMessage_def appendString_def member_append)
  have "parse BeginValue [] (b @ rest)
          = parse (EndValue (JString (escapeString (msg_ID m)))) [FObject [] (Some ''id'')] ?r1"
    unfolding b parse_open
    by (rule parse_first_member [OF plain_names(1) scanString_escapeString])
  also have "\<dots> = parse (EndValue (JString (escapeString (msg_Text m))))
                      [FObject ([] @ [(''id'', JString (escapeString (msg_ID m)))]) (Some ''text'')] ?r2"
    by (rule parse_next_member [OF plain_names(2) scanString_escapeString])
  finally show ?thesis
    by (simp only: parse_close parse_end append_Nil append_Cons)
qed

lemma parse_JobResult:
  assumes "Marshal_JobResult L r = Some b" and "time_Format L (res_ProcessedAt r) = Some ts"
    and "list_all plain ts"
  shows "parse BeginValue [] (b @ rest)
           = Some (JObject [(''id'', JString (escapeString (res_ID r))),
                            (''text'', JString (escapeString (res_Text r))),
                            (''output'', JString (escapeString (res_Output r))),
                            (''processed_at'', JString ts)], rest)"
proof -
  let ?r4 = "CHR ''}'' # rest"
  let ?r3 = "CHR '','' # member ''processed_at'' (quote # ts @ quote # ?r4)"
  let ?r2 = "CHR '','' # member ''output'' (quote # escapeString (res_Output r) @ quote # ?r3)"
  let ?r1 = "CHR '','' # member ''text'' (quote # escapeString (res_Text r) @ quote # ?r2)"
  from assms(1,2)
  have b: "b @ rest = CHR ''{'' # member ''id'' (quote # escapeString (res_ID r) @ quote # ?r1)"
    by (auto simp: Marshal_JobResult_def appendString_def member_append)
  have "parse BeginValue [] (b @ rest)
          = parse (EndValue (JString (escapeString (res_ID r)))) [FObject [] (Some ''id'')] ?r1"
    unfolding b parse_open
    by (rule parse_first_member [OF plain_names(1) scanString_escapeString])
  also have "\<dots> = parse (EndValue (JString (escapeString (res_Text r))))
                      [FObject ([] @ [(''id'', JString (escapeString (res_ID r)))]) (Some ''text'')] ?r2"
    by (rule parse_next_member [OF plain_names(2) scanString_escapeString])
  also have "\<dots> = parse (EndValue (JString (escapeString (res_Output r))))
                      [FObject (([] @ [(''id'', JString (escapeString (res_ID r)))])
                                 @ [(''text'', JString (escapeString (res_Text r)))])
                               (Some ''output'')] ?r3"
    by (rule parse_next_member [OF plain_names(3) scanString_escapeString])
  also have "\<dots> = parse (EndValue (JString ts))
                      [FObject ((([] @ [(''id'', JString (escapeString (res_ID r)))])
                                 @ [(''text'', JString (escapeString (res_Text r)))])
                                 @ [(''output'', JString (escapeString (res_Output r)))])
                               (Some ''processed_at'')] ?r4"
    by (rule parse_next_member [OF plain_names(4) scanString_name [OF assms(3)]])
  finally show ?thesis
    by (simp only: parse_close parse_end append_Nil append_Cons)
qed

lemma unquote_names:
  "unquote ''id'' = ''id''" "unquote ''text'' = ''text''" "unquote ''output'' = ''output''"
  "unquote ''processed_at'' = ''processed_at''"
  by (simp_all add: quote_def backslash_def byte_def)

lemma value_JobMessage_marshalled:
  "value_JobMessage L (JObject [(''id'', JString i), (''text'', JString t)])
     = Some \<lparr>msg_ID = unquote i, msg_Text = unquote t\<rparr>"
  by (simp add: unquote_names lookupField_def finish_def Let_def del: unquote.simps)

lemma value_JobResult_marshalled:
  "value_JobResult L (JObject [(''id'', JString i), (''text'', JString t),
                               (''output'', JString out), (''processed_at'', JString ts)])
     = map_option (\<lambda>t'. \<lparr>res_ID = unquote i, res_Text = unquote t, res_Output = unquote out,
                             res_ProcessedAt = t'\<rparr>) (time_Parse L ts)"
  by (simp add: unquote_names lookupField_def finish_def zero_JobResult_def Let_def
      split: option.splits del: unquote.simps)

section \<open>Decoded and upper-cased strings are well-formed UTF-8\<close>

lemma valid_utf8_ascii: "list_all (\<lambda>c. byte c < 0x80) s \<Longrightarrow> valid_utf8 s"
  by (induction s) simp_all

lemma upperASCII_ascii: "byte c < 0x80 \<Longrightarrow> byte (upperASCII c) < 0x80"
  by (auto simp: upperASCII_def byte_char_of)

lemma valid_utf8_Map: "valid_utf8 (strings_Map f s)"
  by (induction f s rule: strings_Map.induct) (simp_all add: valid_utf8_encodeRune)

lemma valid_utf8_ToUpper: "valid_utf8 (strings_ToUpper L s)"
proof (cases "list_all (\<lambda>c. byte c < 0x80) s")
  case True
  then have "list_all (\<lambda>c. byte c < 0x80) (map upperASCII s)"
    by (simp add: list_all_iff upperASCII_ascii)
  with True show ?thesis
    by (simp add: strings_ToUpper_def valid_utf8_ascii)
next
  case False
  then show ?thesis
    by (simp add: strings_ToUpper_def valid_utf8_Map)
qed

lemma ToUpper_empty: "strings_ToUpper L [] = []"
  by (simp add: strings_ToUpper_def)

lemma storeString_valid: "valid_utf8 old \<Longrightarrow> valid_utf8 (fst (storeString v old))"
  by (cases v) (simp_all add: valid_utf8_unquote del: unquote.simps)

lemma object_JobMessage_valid:
  "valid_utf8 (msg_ID (fst acc)) \<and> valid_utf8 (msg_Text (fst acc)) \<Longrightarrow>
   valid_utf8 (msg_ID (fst (object_JobMessage L ms acc)))
   \<and> valid_utf8 (msg_Text (fst (object_JobMessage L ms acc)))"
proof (induction L ms acc rule: object_JobMessage.induct)
  case (1 L acc)
  then show ?case by simp
next
  case (2 L k v ms r ok)
  from 2(4) have i: "valid_utf8 (fst (storeString v (msg_ID r)))"
    and t: "valid_utf8 (fst (storeString v (msg_Text r)))"
    by (simp_all add: storeString_valid)
  show ?case
  proof (cases "lookupField L [''id'', ''text''] (unquote k) = Some ''id''")
    case True
    with 2(1) [OF refl True prod.collapse] 2(4) i show ?thesis
      by (simp add: Let_def case_prod_unfold del: unquote.simps)
  next
    case False
    note notid = this
    show ?thesis
    proof (cases "lookupField L [''id'', ''text''] (unquote k) = Some ''text''")
      case True
      with 2(2) [OF refl notid True prod.collapse] 2(4) t notid show ?thesis
        by (simp add: Let_def case_prod_unfold del: unquote.simps)
    next
      case False
      with 2(3) [OF refl notid False] 2(4) notid show ?thesis
        by (simp add: Let_def del: unquote.simps)
    qed
  qed
qed

lemma value_JobMessage_valid:
  assumes "value_JobMessage L j = Some jobMsg"
  shows "valid_utf8 (msg_ID jobMsg) \<and> valid_utf8 (msg_Text jobMsg)"
proof (cases j)
  case (JObject ms)
  with assms have "jobMsg = fst (object_JobMessage L ms (\<lparr>msg_ID = [], msg_Text = []\<rparr>, True))"
    by (simp add: finish_def split: if_splits)
  then show ?thesis
    using object_JobMessage_valid [of "(\<lparr>msg_ID = [], msg_Text = []\<rparr>, True)" L ms] by simp
qed (use assms in auto)

lemma Unmarshal_JobMessage_valid:
  "Unmarshal_JobMessage L b = Some jobMsg \<Longrightarrow> valid_utf8 (msg_ID jobMsg) \<and> valid_utf8 (msg_Text jobMsg)"
  by (auto simp: Unmarshal_JobMessage_def dest: value_JobMessage_valid split: Option.bind_splits)

lemma object_JobRequest_valid:
  "valid_utf8 (req_Text (fst acc)) \<Longrightarrow> valid_utf8 (req_Text (fst (object_JobRequest L ms acc)))"
proof (induction L ms acc rule: object_JobRequest.induct)
  case (1 L acc)
  then show ?case by simp
next
  case (2 L k v ms r ok)
  from 2(3) have t: "valid_utf8 (fst (storeString v (req_Text r)))"
    by (simp add: storeString_valid)
  show ?case
  proof (cases "lookupField L [''text''] (unquote k) = Some ''text''")
    case True
    obtain x ok1 where s: "storeString v (req_Text r) = (x, ok1)"
      by (cases "storeString v (req_Text r)")
    with t have "valid_utf8 x"
      by simp
    with 2(1) [OF True s [symmetric]] True s show ?thesis
      by (simp del: unquote.simps)
  next
    case False
    with 2(2) [OF False] 2(3) show ?thesis
      by (simp del: unquote.simps)
  qed
qed

lemma Decode_JobRequest_valid:
  assumes "Decode_JobRequest L b = Some req"
  shows "valid_utf8 (req_Text req)"
proof -
  from assms obtain j where j: "value_JobRequest L j = Some req"
    by (auto simp: Decode_JobRequest_def split: Option.bind_splits)
  show ?thesis
  proof (cases j)
    case (JObject ms)
    with j have "req = fst (object_JobRequest L ms (\<lparr>req_Text = []\<rparr>, True))"
      by (simp add: finish_def split: if_splits)
    then show ?thesis
      using object_JobRequest_valid [of "(\<lparr>req_Text = []\<rparr>, True)" L ms] by simp
  qed (use j in auto)
qed

section \<open>The text of a job identifier\<close>

lemma htmlSafe_ascii: "htmlSafe c \<Longrightarrow> byte c < 0x80"
  by (simp add: htmlSafe_def)

lemma escapeString_htmlSafe: "list_all htmlSafe s \<Longrightarrow> escapeString s = s"
  by (induction s) (simp_all add: htmlSafe_ascii)

lemma valid_utf8_htmlSafe: "list_all htmlSafe s \<Longrightarrow> valid_utf8 s"
  by (rule valid_utf8_ascii) (simp add: list_all_iff htmlSafe_ascii)

lemma htmlSafe_hexdigit: "htmlSafe (hexdigit n)"
  using hexdigit_cases [of n] by (auto simp: htmlSafe_def byte_def quote_def backslash_def)

lemma htmlSafe_hex_Encode: "list_all htmlSafe (hex_Encode bs)"
  by (induction bs) (simp_all add: hex_Encode_def htmlSafe_hexdigit)

lemma length_hex_Encode: "length (hex_Encode bs) = 2 * length bs"
  by (induction bs) (simp_all add: hex_Encode_def)

lemma htmlSafe_hyphen: "htmlSafe (CHR ''-'')"
  by (simp add: htmlSafe_def byte_def quote_def backslash_def)

lemma htmlSafe_uuid_String: "list_all htmlSafe (uuid_String u)"
  by (simp add: uuid_String_def htmlSafe_hex_Encode htmlSafe_hyphen)

lemma length_uuid_New: "uuid_New rnd = Some u \<Longrightarrow> length u = 16"
  by (auto simp: uuid_New_def split: if_splits)

lemma length_uuid_String: "length u = 16 \<Longrightarrow> length (uuid_String u) = 36"
  by (simp add: uuid_String_def length_hex_Encode)

lemma nibbles_all:
  "\<forall>n \<in> set [0..<256].
     unat (((of_nat n :: 8 word) AND 0x0f) OR 0x40) div 16 = 4
     \<and> unat (((of_nat n :: 8 word) AND 0x3f) OR 0x80) div 16 \<in> {8, 9, 10, 11}"
  by code_simp

lemma nibbles:
  fixes x :: "8 word"
  shows "unat ((x AND 0x0f) OR 0x40) div 16 = 4"
    and "unat ((x AND 0x3f) OR 0x80) div 16 \<in> {8, 9, 10, 11}"
proof -
  have "unat x < 2 ^ LENGTH(8)"
    by (rule unsigned_less)
  then have "unat x \<in> set [0..<256]"
    by simp
  from nibbles_all [rule_format, OF this]
  have "unat (((word_of_nat (unat x) :: 8 word) AND 0x0f) OR 0x40) div 16 = 4"
    and "unat (((word_of_nat (unat x) :: 8 word) AND 0x3f) OR 0x80) div 16 \<in> {8, 9, 10, 11}"
    by blast+
  then show "unat ((x AND 0x0f) OR 0x40) div 16 = 4"
    and "unat ((x AND 0x3f) OR 0x80) div 16 \<in> {8, 9, 10, 11}"
    by simp_all
qed

lemma hexdigit_4: "hexdigit 4 = CHR ''4''"
  by (simp add: hexdigit_def)

lemma hexdigit_variant: "n \<in> {8, 9, 10, 11} \<Longrightarrow> hexdigit n \<in> set ''89ab''"
  by (auto simp: hexdigit_def)

lemma uuid_String_version:
  assumes "uuid_New rnd = Some u"
  shows "uuid_String u ! 14 = CHR ''4''" and "uuid_String u ! 19 \<in> set ''89ab''"
proof -
  from assms have len: "length rnd \<ge> 16"
    and u: "u = (take 16 rnd)[6 := (rnd ! 6 AND 0x0f) OR 0x40, 8 := (rnd ! 8 AND 0x3f) OR 0x80]"
    by (auto simp: uuid_New_def split: if_splits)
  have l: "length u = 16"
    using len by (simp add: u)
  have 6: "u ! 6 = (rnd ! 6 AND 0x0f) OR 0x40" and 8: "u ! 8 = (rnd ! 8 AND 0x3f) OR 0x80"
    using len by (simp_all add: u)
  have t6: "take 2 (drop 6 u) = [u ! 6, u ! 7]" and t8: "take 2 (drop 8 u) = [u ! 8, u ! 9]"
    using l by (simp_all add: take_Suc_conv_app_nth numeral_2_eq_2)
  have a: "length (hex_Encode (take 4 u)) = 8" "length (hex_Encode (take 2 (drop 4 u))) = 4"
    using l by (simp_all add: length_hex_Encode)
  have "uuid_String u ! 14 = hexdigit (unat (u ! 6) div 16)"
    unfolding uuid_String_def t6 t8 using a by (simp add: nth_append hex_Encode_def)
  then show "uuid_String u ! 14 = CHR ''4''"
    by (simp add: 6 nibbles(1) hexdigit_4)
  have "uuid_String u ! 19 = hexdigit (unat (u ! 8) div 16)"
    unfolding uuid_String_def t6 t8 using a by (simp add: nth_append hex_Encode_def)
  then show "uuid_String u ! 19 \<in> set ''89ab''"
    using hexdigit_variant [OF nibbles(2) [of "rnd ! 8"]] by (simp add: 8)
qed

section \<open>Encoding and then decoding a struct\<close>

lemma Unmarshal_Marshal_JobMessage:
  assumes "valid_utf8 (msg_ID m)" and "valid_utf8 (msg_Text m)" and "Marshal_JobMessage m = Some b"
  shows "Unmarshal_JobMessage L b = Some m"
proof -
  from parse_JobMessage [OF assms(3), of "[]"]
  have "checkValid b = Some (JObject [(''id'', JString (escapeString (msg_ID m))),
                                      (''text'', JString (escapeString (msg_Text m)))])"
    by (simp add: checkValid_def)
  then show ?thesis
    by (simp add: Unmarshal_JobMessage_def value_JobMessage_marshalled unquote_escapeString assms(1,2)
        del: value_JobMessage.simps)
qed

lemma Decode_Marshal_JobResult:
  assumes "valid_utf8 (res_ID r)" and "valid_utf8 (res_Text r)" and "valid_utf8 (res_Output r)"
    and "Marshal_JobResult L r = Some b" and "time_Format L (res_ProcessedAt r) = Some ts"
    and "list_all plain ts"
  shows "Decode_JobResult L (b @ rest)
           = map_option (\<lambda>t'. r\<lparr>res_ProcessedAt := t'\<rparr>) (time_Parse L ts)"
proof -
  from parse_JobResult [OF assms(4,5,6), of rest]
  have "readValue (b @ rest)
          = Some (JObject [(''id'', JString (escapeString (res_ID r))),
                           (''text'', JString (escapeString (res_Text r))),
                           (''output'', JString (escapeString (res_Output r))),
                           (''processed_at'', JString ts)])"
    by (simp add: readValue_def)
  then show ?thesis
    by (cases "time_Parse L ts")
       (simp_all add: Decode_JobResult_def value_JobResult_marshalled unquote_escapeString assms(1,2,3)
          del: value_JobResult.simps)
qed

lemma Marshal_id_uuid:
  \<open>Encode (Marshal_id (uuid_String u)) = ''{"id":"'' @ uuid_String u @ ''"}'' @ [CHR 0x0A]\<close>
  by (simp add: Encode_def Marshal_id_def member_def appendString_def
      escapeString_htmlSafe [OF htmlSafe_uuid_String] quote_def)

section \<open>Upper-casing, byte by byte and rune by rune\<close>

lemma strings_Map_runes:
  "strings_Map f s = concat (map (\<lambda>r. encodeRune (f r)) (runes s))"
  by (induction f s rule: strings_Map.induct) simp_all

lemma ToUpper_ascii:
  assumes "list_all (\<lambda>c. byte c < 0x80) s"
  shows "strings_ToUpper L s
           = map (\<lambda>c. if 0x61 \<le> byte c \<and> byte c \<le> 0x7A then char_of (byte c - 0x20) else c) s"
  using assms by (simp add: strings_ToUpper_def upperASCII_def)

lemma ToUpper_other:
  assumes "\<not> list_all (\<lambda>c. byte c < 0x80) s"
  shows "strings_ToUpper L s = concat (map (\<lambda>r. encodeRune (unicode_ToUpper L r)) (runes s))"
  using assms by (simp add: strings_ToUpper_def strings_Map_runes)

section \<open>What processMessage stores\<close>

lemma processMessage_success:
  "processMessage L a w m t pf = Return (None, w1) \<longleftrightarrow>
     (\<exists>mbody jobMsg content.
        Message_Body m = Some mbody \<and> Unmarshal_JobMessage L mbody = Some jobMsg
        \<and> Marshal_JobResult L (result_of L jobMsg t) = Some content
        \<and> s3Client a \<noteq> None \<and> \<not> pf
        \<and> w1 = stored w (s3Bucket a) (jobKey (msg_ID jobMsg)) content)"
  by (auto simp: processMessage_def s3_PutObject_def stored_def result_of_def Let_def
      split: option.splits if_splits)

lemma result_of_valid:
  assumes "Unmarshal_JobMessage L mbody = Some jobMsg"
  shows "valid_utf8 (res_ID (result_of L jobMsg t))" "valid_utf8 (res_Text (result_of L jobMsg t))"
    "valid_utf8 (res_Output (result_of L jobMsg t))"
  using Unmarshal_JobMessage_valid [OF assms]
  by (simp_all add: result_of_def valid_utf8_ToUpper)

lemma Decode_stored_result:
  assumes "Unmarshal_JobMessage L mbody = Some jobMsg"
    and "Marshal_JobResult L (result_of L jobMsg t) = Some content"
    and "time_roundtrip L t t'"
  shows "Decode_JobResult L (content @ rest) = Some (result_of L jobMsg t')"
proof -
  from assms(3) obtain ts
    where f: "time_Format L (res_ProcessedAt (result_of L jobMsg t)) = Some ts"
      and p: "list_all plain ts" and q: "time_Parse L ts = Some t'"
    by (auto simp: time_roundtrip_def result_of_def split: option.splits)
  from Decode_Marshal_JobResult [OF result_of_valid [OF assms(1)] assms(2) f p, of rest]
  show ?thesis
    by (simp add: q result_of_def)
qed

lemma Marshal_result_of:
  assumes "time_roundtrip L t t'"
  shows "\<exists>content. Marshal_JobResult L (result_of L jobMsg t) = Some content"
  using assms by (auto simp: time_roundtrip_def Marshal_JobResult_def result_of_def split: option.splits)

section \<open>Readiness\<close>

text \<open>
  C9. The \<open>App\<close> that \<open>main\<close> builds has both clients, so \<open>readyz\<close> never
  answers 503 (service unavailable) for it, and every GET on it is answered 200 with
  the body \<open>ready\<close>. The handlers and the worker loop take the \<open>App\<close> as a value
  and return none, so the clients are the same in every later call.
\<close>

theorem readyz_after_startup:
  assumes "main getenv configFails = Serving a workerEnabled"
  shows "sqsClient a \<noteq> None \<and> s3Client a \<noteq> None
         \<and> status (readyz a r) \<noteq> StatusServiceUnavailable
         \<and> (Method r = ''GET'' \<longrightarrow>
              readyz a r = \<lparr>status = StatusOK, header = [], body = ''ready''\<rparr>)"
proof -
  from assms have "sqsClient a \<noteq> None" and "s3Client a \<noteq> None"
    by (auto simp: main_def Let_def split: if_splits)
  then show ?thesis
    by (auto simp: readyz_def http_Error_def StatusServiceUnavailable_def
        StatusMethodNotAllowed_def StatusOK_def)
qed

theorem readyz_after_startup_witness:
  "main sample_getenv False = Serving sample_app True
   \<and> readyz sample_app (get ''/readyz'') = \<lparr>status = 200, header = [], body = ''ready''\<rparr>"
proof -
  have h: "main sample_getenv False = Serving sample_app True"
    by (simp add: main_def sample_getenv_def sample_app_def Let_def)
  show ?thesis
    using h readyz_after_startup [OF h, of "get ''/readyz''"]
    by (simp add: StatusOK_def get_def)
qed

section \<open>Fetching a result\<close>



section \<open>Submitting a job\<close>

text \<open>
  C8, as the claim states it, fails: a body that is not valid JSON is accepted when it
  begins with a JSON value that decodes as a \<open>JobRequest\<close>, because the decoder of
  \<open>createJob\<close> reads one value from the body and leaves the rest unread. Here the body
  \<open>{"text":"a"}x\<close> is not valid JSON, and the request is answered 201 and a message
  is sent to the queue.
\<close>

theorem createJob_trailing_bytes_counterexample:
  \<open>checkValid ''{"text":"a"}x'' = None
   \<and> map_option status
        (answered (createJob sample_lib sample_app initial (post ''{"text":"a"}x'') sample_rnd False))
       = Some 201
   \<and> calls (served (createJob sample_lib sample_app initial (post ''{"text":"a"}x'') sample_rnd False))
       = [SendMessage ''q'' ''{"id":"00000000-0000-4000-8000-000000000000","text":"a"}'' True]\<close>
  by code_simp

text \<open>
  C8, amended. A POST whose body does not begin with a JSON value that decodes as a
  \<open>JobRequest\<close> (the decoder returns an error) is answered 400 with no service call
  made: the state is unchanged, so no message is enqueued.
\<close>

theorem createJob_rejects_undecodable:
  assumes "Method r = ''POST''" and "Decode_JobRequest L (Body r) = None"
  shows "createJob L a w r rnd sendFails
           = Return (http_Error ''invalid JSON'' StatusBadRequest, w)"
  using assms by (simp add: createJob_def)

theorem createJob_rejects_undecodable_witness:
  \<open>createJob sample_lib sample_app initial (post ''{"text":'') sample_rnd False
     = Return (http_Error ''invalid JSON'' 400, initial)\<close>
proof -
  have m: \<open>Method (post ''{"text":'') = ''POST''\<close>
    by (simp add: post_def)
  have d: \<open>Decode_JobRequest sample_lib (Body (post ''{"text":'')) = None\<close>
    by code_simp
  show ?thesis
    using createJob_rejects_undecodable [OF m d] by (simp add: StatusBadRequest_def)
qed


section \<open>The worker loop\<close>

text \<open>
  C2. While one received message is handled, the calls made are added to the trace,
  and if a \<open>DeleteMessage\<close> is among them then \<open>processMessage\<close> returned \<open>nil\<close>
  for the message and the calls are exactly a successful \<open>PutObject\<close> followed by the
  \<open>DeleteMessage\<close> of the receipt handle of the message. When the body of the message
  does not decode, or the store fails on it, no \<open>DeleteMessage\<close> is made, nothing is
  stored, the handling returns, and the loop goes on with the messages that remain.
\<close>

theorem ack_only_after_success:
  "\<exists>cs. calls (world_of (handleMessage L a w (m, h))) = calls w @ cs
     \<and> (filter isDelete cs \<noteq> [] \<longrightarrow>
          (\<exists>w1 key content ok.
             processMessage L a w m (now h) (putFails h) = Return (None, w1)
             \<and> cs = [PutObject (s3Bucket a) key content ''application/json'' True,
                     DeleteMessage (sqsURL a) (ReceiptHandle m) ok]))
     \<and> (Message_Body m = Some mbody
          \<and> (Unmarshal_JobMessage L mbody = None \<or> (s3Client a \<noteq> None \<and> putFails h)) \<longrightarrow>
          filter isDelete cs = []
          \<and> (\<exists>w2. handleMessage L a w (m, h) = Return w2 \<and> objects w2 = objects w
                \<and> processMessages L a w ((m, h) # rest) = processMessages L a w2 rest))"
  by (auto simp: handleMessage_def processMessage_def s3_PutObject_def sqs_DeleteMessage_def
        called_def logged_def world_of_def Let_def
      split: option.splits if_splits)

theorem ack_only_after_success_witness:
  \<open>(\<exists>w1. processMessage sample_lib sample_app initial sample_message
            (now sample_handling) (putFails sample_handling) = Return (None, w1))
   \<and> (\<exists>w2. handleMessage sample_lib sample_app initial (malformed_message, sample_handling)
              = Return w2 \<and> objects w2 = objects initial)\<close>
proof -
  have e: \<open>calls (world_of (handleMessage sample_lib sample_app initial
                     (sample_message, sample_handling)))
           = [PutObject ''b'' ''jobs/J.json''
                ''{"id":"J","text":"hello","output":"HELLO","processed_at":"2024-01-01T00:00:00Z"}''
                ''application/json'' True,
              DeleteMessage ''q'' (Some ''rh1'') True]\<close>
    by code_simp
  have i: "calls initial = []"
    by (simp add: initial_def)
  have m: "Message_Body malformed_message = Some ''hello''"
    by (simp add: malformed_message_def)
  have d: "Unmarshal_JobMessage sample_lib ''hello'' = None"
    by code_simp
  from ack_only_after_success
         [of sample_lib sample_app initial sample_message sample_handling "''hello''" "[]"]
       ack_only_after_success
         [of sample_lib sample_app initial malformed_message sample_handling "''hello''" "[]"]
  show ?thesis
    by (auto simp: e i m d)
qed

section \<open>The lifecycle of a result\<close>






lemma stored_iff_processed_cong:
  "objects w1 = objects w \<Longrightarrow> processed w1 = processed w \<Longrightarrow>
   stored_iff_processed L a w1 = stored_iff_processed L a w"
  by (simp add: stored_iff_processed_def)







section \<open>Accepted submissions\<close>

text \<open>
  What \<open>createJob\<close> does with a POST whose body decodes, when 16 random bytes are
  read and the queue client is there: one \<open>SendMessage\<close> call is made, with the
  encoding of the \<open>JobMessage\<close> that carries the new identifier and the text of the
  request, and the answer depends on whether that call fails. The identifier has the
  form of a random (version 4) UUID, and the message sent decodes back to that
  \<open>JobMessage\<close>.
\<close>

lemma createJob_accepted:
  assumes "Method r = ''POST''" and "Decode_JobRequest L (Body r) = Some req"
    and "uuid_New rnd = Some u" and "sqsClient a = Some c"
  shows \<open>\<exists>mb. Marshal_JobMessage \<lparr>msg_ID = uuid_String u, msg_Text = req_Text req\<rparr> = Some mb
           \<and> Unmarshal_JobMessage L mb = Some \<lparr>msg_ID = uuid_String u, msg_Text = req_Text req\<rparr>
           \<and> length (uuid_String u) = 36 \<and> uuid_String u ! 14 = CHR ''4''
           \<and> uuid_String u ! 19 \<in> set ''89ab''
           \<and> createJob L a w r rnd sendFails =
               (if sendFails then
                  Return (http_Error ''failed to send message'' StatusInternalServerError,
                          logged ''failed to send message: %v'' ServiceError
                            (called (SendMessage (sqsURL a) mb False) w))
                else
                  Return (\<lparr>status = StatusCreated,
                           header = [(''Content-Type'', ''application/json'')],
                           body = ''{"id":"'' @ uuid_String u @ ''"}'' @ [CHR 0x0A]\<rparr>,
                          called (SendMessage (sqsURL a) mb True) w))\<close>
proof -
  let ?m = "\<lparr>msg_ID = uuid_String u, msg_Text = req_Text req\<rparr>"
  obtain mb where mb: "Marshal_JobMessage ?m = Some mb"
    by (simp add: Marshal_JobMessage_def)
  have "valid_utf8 (msg_ID ?m)" and "valid_utf8 (msg_Text ?m)"
    using valid_utf8_htmlSafe [OF htmlSafe_uuid_String] Decode_JobRequest_valid [OF assms(2)]
    by simp_all
  from Unmarshal_Marshal_JobMessage [OF this mb] have rt: "Unmarshal_JobMessage L mb = Some ?m" .
  have len: "length (uuid_String u) = 36"
    using assms(3) by (simp add: length_uuid_New length_uuid_String)
  have "createJob L a w r rnd sendFails =
               (if sendFails then
                  Return (http_Error ''failed to send message'' StatusInternalServerError,
                          logged ''failed to send message: %v'' ServiceError
                            (called (SendMessage (sqsURL a) mb False) w))
                else
                  Return (\<lparr>status = StatusCreated,
                           header = [(''Content-Type'', ''application/json'')],
                           body = Encode (Marshal_id (uuid_String u))\<rparr>,
                          called (SendMessage (sqsURL a) mb True) w))"
    using assms mb by (simp add: createJob_def sqs_SendMessage_def Let_def)
  with mb rt len uuid_String_version [OF assms(3)] show ?thesis
    by (simp only: Marshal_id_uuid) blast
qed

text \<open>
  C3, as the claim states it, fails: a request whose body decodes is answered 500, not
  201, when \<open>SendMessage\<close> fails.
\<close>

theorem createJob_send_failure_counterexample:
  \<open>Decode_JobRequest sample_lib ''{"text":"hello"}'' = Some \<lparr>req_Text = ''hello''\<rparr>
   \<and> answered (createJob sample_lib sample_app initial (post ''{"text":"hello"}'') sample_rnd True)
       = Some (http_Error ''failed to send message'' 500)
   \<and> calls (served (createJob sample_lib sample_app initial (post ''{"text":"hello"}'') sample_rnd True))
       = [SendMessage ''q'' ''{"id":"00000000-0000-4000-8000-000000000000","text":"hello"}'' False]\<close>
  by code_simp

text \<open>
  C3, amended. For every POST whose body decodes as a \<open>JobRequest\<close> and for which
  \<open>SendMessage\<close> succeeds, the answer is 201 with the body \<open>{"id":"J"}\<close>, where
  \<open>J\<close> is the text of a version 4 UUID made from 16 random bytes (36 characters,
  version digit 4), and exactly one message is sent: the encoding of the \<open>JobMessage\<close>
  with identifier \<open>J\<close> and the text of the request, which decodes back to it. When
  \<open>SendMessage\<close> fails the answer is 500 and the one call made is the failed one.
\<close>

theorem createJob_enqueues:
  assumes "Method r = ''POST''" and "Decode_JobRequest L (Body r) = Some req"
    and "uuid_New rnd = Some u" and "sqsClient a = Some c"
  shows \<open>\<exists>mb. Marshal_JobMessage \<lparr>msg_ID = uuid_String u, msg_Text = req_Text req\<rparr> = Some mb
           \<and> Unmarshal_JobMessage L mb = Some \<lparr>msg_ID = uuid_String u, msg_Text = req_Text req\<rparr>
           \<and> length (uuid_String u) = 36 \<and> uuid_String u ! 14 = CHR ''4''
           \<and> uuid_String u ! 19 \<in> set ''89ab''
           \<and> createJob L a w r rnd sendFails =
               (if sendFails then
                  Return (http_Error ''failed to send message'' StatusInternalServerError,
                          logged ''failed to send message: %v'' ServiceError
                            (called (SendMessage (sqsURL a) mb False) w))
                else
                  Return (\<lparr>status = StatusCreated,
                           header = [(''Content-Type'', ''application/json'')],
                           body = ''{"id":"'' @ uuid_String u @ ''"}'' @ [CHR 0x0A]\<rparr>,
                          called (SendMessage (sqsURL a) mb True) w))\<close>
  using assms by (rule createJob_accepted)

theorem createJob_enqueues_witness:
  \<open>createJob sample_lib sample_app initial (post ''{"text":"hello"}'') sample_rnd False
     = Return (\<lparr>status = 201, header = [(''Content-Type'', ''application/json'')],
               body = ''{"id":"00000000-0000-4000-8000-000000000000"}'' @ [CHR 0x0A]\<rparr>,
              called (SendMessage ''q''
                 ''{"id":"00000000-0000-4000-8000-000000000000","text":"hello"}'' True) initial)\<close>
proof -
  have m: \<open>Method (post ''{"text":"hello"}'') = ''POST''\<close>
    by (simp add: post_def)
  have d: \<open>Decode_JobRequest sample_lib (Body (post ''{"text":"hello"}''))
             = Some \<lparr>req_Text = ''hello''\<rparr>\<close>
    by code_simp
  have u: "uuid_New sample_rnd = Some sample_uuid"
    by code_simp
  have s: "uuid_String sample_uuid = ''00000000-0000-4000-8000-000000000000''"
    by code_simp
  have c: "sqsClient sample_app = Some (SqsClient ''us-east-1'')"
    by (simp add: sample_app_def)
  have q: "sqsURL sample_app = ''q''"
    by (simp add: sample_app_def)
  have mb: \<open>Marshal_JobMessage \<lparr>msg_ID = ''00000000-0000-4000-8000-000000000000'',
                                 msg_Text = ''hello''\<rparr>
             = Some ''{"id":"00000000-0000-4000-8000-000000000000","text":"hello"}''\<close>
    by code_simp
  from createJob_enqueues [OF m d u c, of initial False]
  show ?thesis
    unfolding s q by (auto simp: mb StatusCreated_def)
qed

text \<open>
  C10, as the claim states it, fails in three ways: a valid JSON body that is not an
  object (here \<open>[]\<close>) is answered 400; an object without a \<open>text\<close> member but with
  a member whose key differs from it only in case (here \<open>TEXT\<close>) gives that
  member's value as the text; and the answer is 500 when \<open>SendMessage\<close> fails.
\<close>

theorem createJob_without_text_counterexample:
  \<open>checkValid ''[]'' = Some (JArray [])
   \<and> answered (createJob sample_lib sample_app initial (post ''[]'') sample_rnd False)
       = Some (http_Error ''invalid JSON'' 400)
   \<and> checkValid ''{"TEXT":"x"}'' = Some (JObject [(''TEXT'', JString ''x'')])
   \<and> calls (served (createJob sample_lib sample_app initial (post ''{"TEXT":"x"}'') sample_rnd False))
       = [SendMessage ''q'' ''{"id":"00000000-0000-4000-8000-000000000000","text":"x"}'' True]
   \<and> answered (createJob sample_lib sample_app initial (post ''{}'') sample_rnd True)
       = Some (http_Error ''failed to send message'' 500)\<close>
  by code_simp

lemma object_JobRequest_no_text:
  "list_all (\<lambda>m. lookupField L [''text''] (unquote (fst m)) \<noteq> Some ''text'') ms \<Longrightarrow>
   object_JobRequest L ms acc = acc"
  by (induction L ms acc rule: object_JobRequest.induct) (simp_all del: unquote.simps)

text \<open>
  C10, amended. For every POST whose body begins with the JSON value \<open>null\<close> or with
  a JSON object that has no member whose key names the \<open>text\<close> field (exactly, or
  after case folding), and for which \<open>SendMessage\<close> succeeds, the body decodes to a
  \<open>JobRequest\<close> with the empty text, the answer is 201, and the message sent carries
  the empty string as its text.
\<close>

theorem createJob_without_text:
  assumes "Method r = ''POST''" and "readValue (Body r) = Some v"
    and "v = JNull \<or> (\<exists>ms. v = JObject ms
           \<and> list_all (\<lambda>m. lookupField L [''text''] (unquote (fst m)) \<noteq> Some ''text'') ms)"
    and "uuid_New rnd = Some u" and "sqsClient a = Some c" and "\<not> sendFails"
  shows \<open>Decode_JobRequest L (Body r) = Some \<lparr>req_Text = []\<rparr>
         \<and> createJob L a w r rnd sendFails =
             Return (\<lparr>status = StatusCreated,
                      header = [(''Content-Type'', ''application/json'')],
                      body = ''{"id":"'' @ uuid_String u @ ''"}'' @ [CHR 0x0A]\<rparr>,
                     called (SendMessage (sqsURL a)
                               (''{"id":"'' @ uuid_String u @ ''","text":""}'') True) w)\<close>
proof -
  from assms(2,3) have d: "Decode_JobRequest L (Body r) = Some \<lparr>req_Text = []\<rparr>"
    by (auto simp: Decode_JobRequest_def object_JobRequest_no_text finish_def)
  have mb: \<open>Marshal_JobMessage \<lparr>msg_ID = uuid_String u, msg_Text = req_Text \<lparr>req_Text = []\<rparr>\<rparr>
              = Some (''{"id":"'' @ uuid_String u @ ''","text":""}'')\<close>
    by (simp add: Marshal_JobMessage_def member_def appendString_def
        escapeString_htmlSafe [OF htmlSafe_uuid_String] quote_def)
  from createJob_accepted [OF assms(1) d assms(4,5), of w sendFails] assms(6) d mb
  show ?thesis
    by auto
qed

theorem createJob_without_text_witness:
  \<open>createJob sample_lib sample_app initial (post ''{}'') sample_rnd False
     = Return (\<lparr>status = 201, header = [(''Content-Type'', ''application/json'')],
               body = ''{"id":"00000000-0000-4000-8000-000000000000"}'' @ [CHR 0x0A]\<rparr>,
              called (SendMessage ''q''
                 ''{"id":"00000000-0000-4000-8000-000000000000","text":""}'' True) initial)\<close>
proof -
  have m: \<open>Method (post ''{}'') = ''POST''\<close>
    by (simp add: post_def)
  have v: \<open>readValue (Body (post ''{}'')) = Some (JObject [])\<close>
    by code_simp
  have n: "JObject [] = JNull \<or> (\<exists>ms. JObject [] = JObject ms
           \<and> list_all (\<lambda>m. lookupField sample_lib [''text''] (unquote (fst m)) \<noteq> Some ''text'') ms)"
    by simp
  have u: "uuid_New sample_rnd = Some sample_uuid"
    by code_simp
  have s: "uuid_String sample_uuid = ''00000000-0000-4000-8000-000000000000''"
    by code_simp
  have c: "sqsClient sample_app = Some (SqsClient ''us-east-1'')"
    by (simp add: sample_app_def)
  have q: "sqsURL sample_app = ''q''"
    by (simp add: sample_app_def)
  from createJob_without_text [OF m v n u c, of False initial]
  show ?thesis
    unfolding s q by (simp add: StatusCreated_def)
qed

section \<open>Processing a message\<close>

text \<open>
  C4. When \<open>processMessage\<close> returns \<open>nil\<close> for a message that carries the text
  \<open>T\<close>, the object stored under \<open>jobs/{id}.json\<close> is the encoding of a
  \<open>JobResult\<close> with the identifier and the text of the message and an \<open>output\<close>
  that is the upper-case form of \<open>T\<close>, and (the time text being read back) it decodes
  to a \<open>JobResult\<close> with that output. The upper-case form is: empty for the empty
  text; for a text of ASCII bytes only, the text with every byte from \<open>a\<close> to \<open>z\<close>
  lowered by 32 (to \<open>A\<close> to \<open>Z\<close>) and every other byte kept; for any other text,
  the UTF-8 encodings of the upper-case runes, by the Unicode table, of the runes of
  the text, in order.
\<close>

theorem output_transform:
  assumes "processMessage L a w m tnow pf = Return (None, w1)"
  shows "\<exists>mbody jobMsg content out.
           Message_Body m = Some mbody \<and> Unmarshal_JobMessage L mbody = Some jobMsg
           \<and> objects w1 (s3Bucket a, jobKey (msg_ID jobMsg))
               = Some \<lparr>obj_Body = content, obj_ContentType = ''application/json''\<rparr>
           \<and> Marshal_JobResult L
                 \<lparr>res_ID = msg_ID jobMsg, res_Text = msg_Text jobMsg,
                  res_Output = out, res_ProcessedAt = tnow\<rparr>
               = Some content
           \<and> (\<forall>t'. time_roundtrip L tnow t'
                 \<longrightarrow> Decode_JobResult L content
                       = Some \<lparr>res_ID = msg_ID jobMsg, res_Text = msg_Text jobMsg,
                               res_Output = out, res_ProcessedAt = t'\<rparr>)
           \<and> (msg_Text jobMsg = [] \<longrightarrow> out = [])
           \<and> (list_all (\<lambda>c. byte c < 0x80) (msg_Text jobMsg) \<longrightarrow>
                out = map (\<lambda>c. if 0x61 \<le> byte c \<and> byte c \<le> 0x7A
                                then char_of (byte c - 0x20) else c) (msg_Text jobMsg))
           \<and> (\<not> list_all (\<lambda>c. byte c < 0x80) (msg_Text jobMsg) \<longrightarrow>
                out = concat (map (\<lambda>r. encodeRune (unicode_ToUpper L r))
                                (runes (msg_Text jobMsg))))"
proof -
  from assms obtain mbody jobMsg content
    where 1: "Message_Body m = Some mbody" "Unmarshal_JobMessage L mbody = Some jobMsg"
      and 2: "Marshal_JobResult L (result_of L jobMsg tnow) = Some content"
      and 3: "w1 = stored w (s3Bucket a) (jobKey (msg_ID jobMsg)) content"
    unfolding processMessage_success by blast
  let ?out = "strings_ToUpper L (msg_Text jobMsg)"
  have 4: "Decode_JobResult L content
             = Some \<lparr>res_ID = msg_ID jobMsg, res_Text = msg_Text jobMsg,
                     res_Output = ?out, res_ProcessedAt = t'\<rparr>"
    if "time_roundtrip L tnow t'" for t'
    using Decode_stored_result [OF 1(2) 2 that, of "[]"] by (simp add: result_of_def)
  have 5: "objects w1 (s3Bucket a, jobKey (msg_ID jobMsg))
             = Some \<lparr>obj_Body = content, obj_ContentType = ''application/json''\<rparr>"
    by (simp add: 3 stored_def called_def)
  have 6: "msg_Text jobMsg = [] \<longrightarrow> ?out = []"
    by (simp add: ToUpper_empty)
  have 7: "list_all (\<lambda>c. byte c < 0x80) (msg_Text jobMsg) \<longrightarrow>
             ?out = map (\<lambda>c. if 0x61 \<le> byte c \<and> byte c \<le> 0x7A
                             then char_of (byte c - 0x20) else c) (msg_Text jobMsg)"
    by (simp add: ToUpper_ascii)
  have 8: "\<not> list_all (\<lambda>c. byte c < 0x80) (msg_Text jobMsg) \<longrightarrow>
             ?out = concat (map (\<lambda>r. encodeRune (unicode_ToUpper L r)) (runes (msg_Text jobMsg)))"
    by (simp add: ToUpper_other)
  from 2 have 9: "Marshal_JobResult L
                 \<lparr>res_ID = msg_ID jobMsg, res_Text = msg_Text jobMsg,
                  res_Output = ?out, res_ProcessedAt = tnow\<rparr> = Some content"
    by (simp add: result_of_def)
  show ?thesis
    apply (rule exI [of _ mbody])
    apply (rule exI [of _ jobMsg])
    apply (rule exI [of _ content])
    apply (rule exI [of _ ?out])
    using 1 4 5 6 7 8 9 by blast
qed

theorem output_transform_witness:
  \<open>\<exists>w1 content.
      processMessage sample_lib sample_app initial sample_message ''2024-01-01T00:00:00Z'' False
        = Return (None, w1)
      \<and> objects w1 (''b'', ''jobs/J.json'')
          = Some \<lparr>obj_Body = content, obj_ContentType = ''application/json''\<rparr>
      \<and> Decode_JobResult sample_lib content
          = Some \<lparr>res_ID = ''J'', res_Text = ''hello'', res_Output = ''HELLO'',
                  res_ProcessedAt = ''2024-01-01T00:00:00Z''\<rparr>\<close>
proof -
  let ?t = "''2024-01-01T00:00:00Z''"
  let ?m = "\<lparr>msg_ID = ''J'', msg_Text = ''hello''\<rparr>"
  let ?w1 = "stored initial (s3Bucket sample_app) (jobKey ''J'') sample_content"
  have b: \<open>Message_Body sample_message = Some ''{"id":"J","text":"hello"}''\<close>
    by (simp add: sample_message_def)
  have u: \<open>Unmarshal_JobMessage sample_lib ''{"id":"J","text":"hello"}'' = Some ?m\<close>
    by code_simp
  have r: "Marshal_JobResult sample_lib (result_of sample_lib ?m ?t) = Some sample_content"
    by code_simp
  have c: "s3Client sample_app \<noteq> None" "s3Bucket sample_app = ''b''" "jobKey ''J'' = ''jobs/J.json''"
    by (simp_all add: sample_app_def jobKey_def)
  have p: "processMessage sample_lib sample_app initial sample_message ?t False = Return (None, ?w1)"
    unfolding processMessage_success using b u r c(1) by simp
  have f: "time_roundtrip sample_lib ?t ?t"
    by code_simp
  from output_transform [OF p] obtain mbody jobMsg content out
    where 1: "Message_Body sample_message = Some mbody"
      and 2: "Unmarshal_JobMessage sample_lib mbody = Some jobMsg"
      and 3: "objects ?w1 (s3Bucket sample_app, jobKey (msg_ID jobMsg))
                = Some \<lparr>obj_Body = content, obj_ContentType = ''application/json''\<rparr>"
      and 4: "\<forall>t'. time_roundtrip sample_lib ?t t'
                \<longrightarrow> Decode_JobResult sample_lib content
                      = Some \<lparr>res_ID = msg_ID jobMsg, res_Text = msg_Text jobMsg,
                              res_Output = out, res_ProcessedAt = t'\<rparr>"
      and 5: "list_all (\<lambda>c. byte c < 0x80) (msg_Text jobMsg) \<longrightarrow>
                out = map (\<lambda>c. if 0x61 \<le> byte c \<and> byte c \<le> 0x7A
                                then char_of (byte c - 0x20) else c) (msg_Text jobMsg)"
    by blast
  from 1 2 b u have j: "jobMsg = ?m"
    by simp
  have "list_all (\<lambda>c. byte c < 0x80) ''hello''"
    by (simp add: byte_def)
  moreover have "map (\<lambda>c. if 0x61 \<le> byte c \<and> byte c \<le> 0x7A
                        then char_of (byte c - 0x20) else c) ''hello'' = ''HELLO''"
    by code_simp
  ultimately have o: "out = ''HELLO''"
    using 5 by (simp only: j JobMessage.simps)
  from 4 f have "Decode_JobResult sample_lib content
                   = Some \<lparr>res_ID = ''J'', res_Text = ''hello'', res_Output = ''HELLO'',
                           res_ProcessedAt = ?t\<rparr>"
    by (simp add: j o)
  with p 3 show ?thesis
    by (auto simp: j c)
qed

text \<open>
  C5. When \<open>processMessage\<close> returns \<open>nil\<close> twice in a row for the same message,
  the two stored objects are the encodings of two \<open>JobResult\<close>s that agree on
  \<open>id\<close>, \<open>text\<close> and \<open>output\<close> and carry the two processing times; both are
  written under the same key, the second in place of the first, every other object
  being left as it was; and the object that remains decodes as a \<open>JobResult\<close>.
\<close>

theorem processing_idempotent:
  assumes "processMessage L a w m t1 pf1 = Return (None, w1)"
    and "processMessage L a w1 m t2 pf2 = Return (None, w2)"
    and "time_roundtrip L t2 t2'"
  shows "\<exists>r1 r2 b1 b2.
           Marshal_JobResult L r1 = Some b1 \<and> Marshal_JobResult L r2 = Some b2
           \<and> res_ID r1 = res_ID r2 \<and> res_Text r1 = res_Text r2 \<and> res_Output r1 = res_Output r2
           \<and> res_ProcessedAt r1 = t1 \<and> res_ProcessedAt r2 = t2
           \<and> carries L m (res_ID r1)
           \<and> objects w1 = (objects w)((s3Bucket a, jobKey (res_ID r1)) :=
                  Some \<lparr>obj_Body = b1, obj_ContentType = ''application/json''\<rparr>)
           \<and> objects w2 = (objects w)((s3Bucket a, jobKey (res_ID r1)) :=
                  Some \<lparr>obj_Body = b2, obj_ContentType = ''application/json''\<rparr>)
           \<and> Decode_JobResult L b2 = Some (r2\<lparr>res_ProcessedAt := t2'\<rparr>)"
proof -
  from assms(1) obtain mbody jobMsg b1
    where 1: "Message_Body m = Some mbody" "Unmarshal_JobMessage L mbody = Some jobMsg"
      and 2: "Marshal_JobResult L (result_of L jobMsg t1) = Some b1"
      and 3: "w1 = stored w (s3Bucket a) (jobKey (msg_ID jobMsg)) b1"
    unfolding processMessage_success by blast
  from assms(2) 1 obtain b2
    where 4: "Marshal_JobResult L (result_of L jobMsg t2) = Some b2"
      and 5: "w2 = stored w1 (s3Bucket a) (jobKey (msg_ID jobMsg)) b2"
    unfolding processMessage_success by auto
  have 6: "Decode_JobResult L b2 = Some ((result_of L jobMsg t2)\<lparr>res_ProcessedAt := t2'\<rparr>)"
    using Decode_stored_result [OF 1(2) 4 assms(3), of "[]"] by (simp add: result_of_def)
  have 7: "carries L m (res_ID (result_of L jobMsg t1))"
    using 1 by (simp add: carries_def result_of_def)
  show ?thesis
    apply (rule exI [of _ "result_of L jobMsg t1"])
    apply (rule exI [of _ "result_of L jobMsg t2"])
    apply (rule exI [of _ b1])
    apply (rule exI [of _ b2])
    using 2 4 6 7 by (auto simp: 3 5 stored_def called_def result_of_def)
qed

theorem processing_idempotent_witness:
  "\<exists>r1 r2 b1 b2.
     Marshal_JobResult sample_lib r1 = Some b1 \<and> Marshal_JobResult sample_lib r2 = Some b2
     \<and> res_ID r1 = res_ID r2 \<and> res_Text r1 = res_Text r2 \<and> res_Output r1 = res_Output r2
     \<and> res_ProcessedAt r1 = ''2024-01-01T00:00:00Z'' \<and> res_ProcessedAt r2 = ''2024-01-02T00:00:00Z''
     \<and> carries sample_lib sample_message (res_ID r1)
     \<and> objects (stored initial ''b'' ''jobs/J.json'' sample_content)
         = (objects initial)((''b'', jobKey (res_ID r1)) :=
              Some \<lparr>obj_Body = b1, obj_ContentType = ''application/json''\<rparr>)
     \<and> objects (stored (stored initial ''b'' ''jobs/J.json'' sample_content)
                  ''b'' ''jobs/J.json'' sample_content2)
         = (objects initial)((''b'', jobKey (res_ID r1)) :=
              Some \<lparr>obj_Body = b2, obj_ContentType = ''application/json''\<rparr>)
     \<and> Decode_JobResult sample_lib b2 = Some (r2\<lparr>res_ProcessedAt := ''2024-01-02T00:00:00Z''\<rparr>)"
proof -
  let ?t1 = "''2024-01-01T00:00:00Z''"
  let ?t2 = "''2024-01-02T00:00:00Z''"
  let ?w1 = "stored initial ''b'' ''jobs/J.json'' sample_content"
  let ?w2 = "stored ?w1 ''b'' ''jobs/J.json'' sample_content2"
  have a: "s3Bucket sample_app = ''b''" "s3Client sample_app \<noteq> None" "jobKey ''J'' = ''jobs/J.json''"
    by (simp_all add: sample_app_def jobKey_def)
  have b: \<open>Message_Body sample_message = Some ''{"id":"J","text":"hello"}''\<close>
    by (simp add: sample_message_def)
  have u: \<open>Unmarshal_JobMessage sample_lib ''{"id":"J","text":"hello"}''
             = Some \<lparr>msg_ID = ''J'', msg_Text = ''hello''\<rparr>\<close>
    by code_simp
  have r1: "Marshal_JobResult sample_lib (result_of sample_lib \<lparr>msg_ID = ''J'', msg_Text = ''hello''\<rparr> ?t1)
              = Some sample_content"
    by code_simp
  have r2: "Marshal_JobResult sample_lib (result_of sample_lib \<lparr>msg_ID = ''J'', msg_Text = ''hello''\<rparr> ?t2)
              = Some sample_content2"
    by code_simp
  have p1: "processMessage sample_lib sample_app initial sample_message ?t1 False = Return (None, ?w1)"
    unfolding processMessage_success using b u r1 a by simp
  have p2: "processMessage sample_lib sample_app ?w1 sample_message ?t2 False = Return (None, ?w2)"
    unfolding processMessage_success using b u r2 a by simp
  have f: "time_roundtrip sample_lib ?t2 ?t2"
    by code_simp
  from processing_idempotent [OF p1 p2 f] show ?thesis
    by (simp only: a)
qed

section \<open>Fetching what was stored\<close>

text \<open>
  C6, as the claim states it, fails: a message without an \<open>id\<close> member is processed
  and its result stored under \<open>jobs/.json\<close>, with the empty identifier, and the GET
  for the empty identifier is answered 400; and the GET for a stored result is answered
  404 when \<open>GetObject\<close> fails.
\<close>

theorem stored_result_empty_id_counterexample:
  \<open>map_option obj_Body
      (objects (world_of (handleMessage sample_lib sample_app initial
                            (message_without_id, sample_handling))) (''b'', jobKey []))
     = Some ''{"id":"","text":"hello","output":"HELLO","processed_at":"2024-01-01T00:00:00Z"}''
   \<and> answered (getJob sample_lib sample_app
                  (world_of (handleMessage sample_lib sample_app initial
                               (message_without_id, sample_handling)))
                  (get (''/jobs/'' @ [])) False)
       = Some (http_Error ''job id required'' 400)
   \<and> answered (getJob sample_lib sample_app
                  (world_of (handleMessage sample_lib sample_app initial
                               (sample_message, sample_handling)))
                  (get (''/jobs/'' @ ''J'')) True)
       = Some (http_Error ''job not found'' 404)\<close>
  by code_simp

text \<open>
  C6, amended. For every \<open>JobResult\<close> with a non-empty identifier that
  \<open>processMessage\<close> has stored, a later GET on \<open>/jobs/{id}\<close> for which
  \<open>GetObject\<close> succeeds, made while the object under the key is still the stored
  one, is answered 200 with the encoding of a \<open>JobResult\<close> that has the same
  \<open>id\<close>, \<open>text\<close> and \<open>output\<close>, byte for byte: the body decodes to them.
\<close>

theorem stored_result_roundtrip:
  assumes "processMessage L a w m tnow pf = Return (None, w1)"
    and "Message_Body m = Some mbody" and "Unmarshal_JobMessage L mbody = Some jobMsg"
    and "msg_ID jobMsg \<noteq> []"
    and "objects w2 (s3Bucket a, jobKey (msg_ID jobMsg)) = objects w1 (s3Bucket a, jobKey (msg_ID jobMsg))"
    and "time_roundtrip L tnow t1" and "time_roundtrip L t1 t2"
    and "Method r = ''GET''" and "Path r = ''/jobs/'' @ msg_ID jobMsg"
  shows "\<exists>content.
           getJob L a w2 r False =
             Return (\<lparr>status = StatusOK, header = [(''Content-Type'', ''application/json'')],
                      body = content @ [CHR 0x0A]\<rparr>,
                     called (GetObject (s3Bucket a) (jobKey (msg_ID jobMsg)) True) w2)
           \<and> Marshal_JobResult L
                 \<lparr>res_ID = msg_ID jobMsg, res_Text = msg_Text jobMsg,
                  res_Output = strings_ToUpper L (msg_Text jobMsg), res_ProcessedAt = t1\<rparr>
               = Some content
           \<and> Decode_JobResult L (content @ [CHR 0x0A])
               = Some \<lparr>res_ID = msg_ID jobMsg, res_Text = msg_Text jobMsg,
                       res_Output = strings_ToUpper L (msg_Text jobMsg), res_ProcessedAt = t2\<rparr>"
proof -
  from assms(1,2,3) obtain stored_content
    where 1: "Marshal_JobResult L (result_of L jobMsg tnow) = Some stored_content"
      and 2: "s3Client a \<noteq> None"
      and 3: "w1 = stored w (s3Bucket a) (jobKey (msg_ID jobMsg)) stored_content"
    unfolding processMessage_success by auto
  have o: "objects w2 (s3Bucket a, jobKey (msg_ID jobMsg))
             = Some \<lparr>obj_Body = stored_content, obj_ContentType = ''application/json''\<rparr>"
    unfolding assms(5) 3 by (simp add: stored_def called_def)
  have d: "Decode_JobResult L stored_content = Some (result_of L jobMsg t1)"
    using Decode_stored_result [OF assms(3) 1 assms(6), of "[]"] by simp
  from Marshal_result_of [OF assms(7), of jobMsg] obtain content
    where c: "Marshal_JobResult L (result_of L jobMsg t1) = Some content"
    by blast
  have e: "Decode_JobResult L (content @ [CHR 0x0A]) = Some (result_of L jobMsg t2)"
    by (rule Decode_stored_result [OF assms(3) c assms(7)])
  have "getJob L a w2 r False =
          Return (\<lparr>status = StatusOK, header = [(''Content-Type'', ''application/json'')],
                   body = content @ [CHR 0x0A]\<rparr>,
                  called (GetObject (s3Bucket a) (jobKey (msg_ID jobMsg)) True) w2)"
    using assms(4,8,9) 2 o d c
    by (auto simp: getJob_def s3_GetObject_def Encode_def Let_def)
  with c e show ?thesis
    by (auto simp: result_of_def)
qed

theorem stored_result_roundtrip_witness:
  \<open>\<exists>content.
     getJob sample_lib sample_app (stored initial ''b'' ''jobs/J.json'' sample_content)
       (get ''/jobs/J'') False =
       Return (\<lparr>status = 200, header = [(''Content-Type'', ''application/json'')],
                body = content @ [CHR 0x0A]\<rparr>,
               called (GetObject ''b'' ''jobs/J.json'' True)
                 (stored initial ''b'' ''jobs/J.json'' sample_content))
     \<and> Marshal_JobResult sample_lib
           \<lparr>res_ID = ''J'', res_Text = ''hello'', res_Output = ''HELLO'',
            res_ProcessedAt = ''2024-01-01T00:00:00Z''\<rparr> = Some content
     \<and> Decode_JobResult sample_lib (content @ [CHR 0x0A])
         = Some \<lparr>res_ID = ''J'', res_Text = ''hello'', res_Output = ''HELLO'',
                 res_ProcessedAt = ''2024-01-01T00:00:00Z''\<rparr>\<close>
proof -
  let ?t = "''2024-01-01T00:00:00Z''"
  let ?w1 = "stored initial ''b'' ''jobs/J.json'' sample_content"
  let ?m = "\<lparr>msg_ID = ''J'', msg_Text = ''hello''\<rparr>"
  have a: "s3Bucket sample_app = ''b''" "s3Client sample_app \<noteq> None" "jobKey ''J'' = ''jobs/J.json''"
    by (simp_all add: sample_app_def jobKey_def)
  have b: \<open>Message_Body sample_message = Some ''{"id":"J","text":"hello"}''\<close>
    by (simp add: sample_message_def)
  have u: \<open>Unmarshal_JobMessage sample_lib ''{"id":"J","text":"hello"}'' = Some ?m\<close>
    by code_simp
  have r: "Marshal_JobResult sample_lib (result_of sample_lib ?m ?t) = Some sample_content"
    by code_simp
  have p: "processMessage sample_lib sample_app initial sample_message ?t False = Return (None, ?w1)"
    unfolding processMessage_success using b u r a by simp
  have n: "msg_ID ?m \<noteq> []"
    by simp
  have f: "time_roundtrip sample_lib ?t ?t"
    by code_simp
  have g: "Method (get ''/jobs/J'') = ''GET''" "Path (get ''/jobs/J'') = ''/jobs/'' @ msg_ID ?m"
    by (simp_all add: get_def)
  have up: "strings_ToUpper sample_lib (msg_Text ?m) = ''HELLO''"
    by code_simp
  from stored_result_roundtrip [OF p b u n refl f f g] show ?thesis
    unfolding up by (simp add: a StatusOK_def)
qed

end
